theory Spec2Isabelle
  imports Complex_Main "HOL-Library.AList"
begin

section \<open>The registry (registry.py)\<close>

text \<open>
  A class is identified by its name. Python's method resolution order is an attribute of
  the class object (\<^verbatim>\<open>cls.__mro__\<close>: the class itself first, \<^verbatim>\<open>object\<close> last); it is
  computed by the interpreter, so every operation that reads it takes it as the
  function \<open>mro\<close>.
\<close>

type_synonym cls = string
type_synonym addr = nat

text \<open>
  \<^verbatim>\<open>Registry.register\<close> appends in place to the list object stored in the dictionary, and
  \<^verbatim>\<open>Registry.get\<close> builds a new list object. To keep the difference visible, list objects
  live in a store: \<open>heap\<close> maps the address of a list object to its contents, \<open>next_addr\<close>
  is the next unused address, and \<open>registry\<close> is the dictionary \<^verbatim>\<open>self._registry\<close>, from a
  class to the address of its list.
\<close>

record 'i pystate =
  heap :: "addr \<rightharpoonup> 'i list"
  next_addr :: addr
  registry :: "cls \<rightharpoonup> addr"

text \<open>\<^verbatim>\<open>Registry.__init__\<close>: \<^verbatim>\<open>self._registry = {}\<close>.\<close>

definition Registry_init :: "'i pystate" where
  "Registry_init = \<lparr>heap = Map.empty, next_addr = 0, registry = Map.empty\<rparr>"

text \<open>The list display \<^verbatim>\<open>[]\<close>: a new, empty list object.\<close>

definition new_list :: "'i pystate \<Rightarrow> addr \<times> 'i pystate" where
  "new_list s =
     (next_addr s, s\<lparr>heap := (heap s)(next_addr s \<mapsto> []), next_addr := Suc (next_addr s)\<rparr>)"

text \<open>The contents of a list object (a reference always points to an allocated list).\<close>

definition deref :: "'i pystate \<Rightarrow> addr \<Rightarrow> 'i list" where
  "deref s a = (case heap s a of Some xs \<Rightarrow> xs | None \<Rightarrow> [])"

text \<open>\<^verbatim>\<open>lst.append(item)\<close> and \<^verbatim>\<open>lst.extend(other)\<close>, both in place.\<close>

definition list_append :: "'i pystate \<Rightarrow> addr \<Rightarrow> 'i \<Rightarrow> 'i pystate" where
  "list_append s a item = s\<lparr>heap := (heap s)(a \<mapsto> deref s a @ [item])\<rparr>"

definition list_extend :: "'i pystate \<Rightarrow> addr \<Rightarrow> addr \<Rightarrow> 'i pystate" where
  "list_extend s a other = s\<lparr>heap := (heap s)(a \<mapsto> deref s a @ deref s other)\<rparr>"

text \<open>
  Any change a caller makes to a list object it holds (\<^verbatim>\<open>lst.clear()\<close>, \<^verbatim>\<open>lst.append(x)\<close>,
  \<^verbatim>\<open>lst[:] = xs\<close>, ...): the object at that address gets new contents.
\<close>

definition list_assign :: "'i pystate \<Rightarrow> addr \<Rightarrow> 'i list \<Rightarrow> 'i pystate" where
  "list_assign s a xs = s\<lparr>heap := (heap s)(a \<mapsto> xs)\<rparr>"

text \<open>
  \<^verbatim>\<open>self._registry.get(cls, [])\<close>: the default \<^verbatim>\<open>[]\<close> is evaluated (a list is allocated)
  before the lookup; the dictionary itself is not changed by \<^verbatim>\<open>dict.get\<close>.
\<close>

definition registry_get_default :: "'i pystate \<Rightarrow> cls \<Rightarrow> addr \<times> 'i pystate" where
  "registry_get_default s c =
     (case new_list s of (dflt, s1) \<Rightarrow>
        (case registry s1 c of Some a \<Rightarrow> (a, s1) | None \<Rightarrow> (dflt, s1)))"

text \<open>
  \<^verbatim>\<open>
  def register(self, cls, item):
      existing = self._registry.get(cls, [])
      existing.append(item)
      self._registry[cls] = existing
  \<close>
\<close>

definition register :: "'i pystate \<Rightarrow> cls \<Rightarrow> 'i \<Rightarrow> 'i pystate" where
  "register s c item =
     (case registry_get_default s c of (existing, s1) \<Rightarrow>
        (let s2 = list_append s1 existing item
         in s2\<lparr>registry := (registry s2)(c \<mapsto> existing)\<rparr>))"

text \<open>
  \<^verbatim>\<open>
  def get(self, cls):
      parents = reversed(cls.__mro__[:-1])
      items = []
      for parent in parents:
          items.extend(self._registry.get(parent, []))
      return items
  \<close>
  The result is the address of the new list and the state after the call.
\<close>

fun get_loop :: "addr \<Rightarrow> cls list \<Rightarrow> 'i pystate \<Rightarrow> 'i pystate" where
  "get_loop items [] s = s"
| "get_loop items (parent # parents) s =
     (case registry_get_default s parent of (a, s1) \<Rightarrow>
        get_loop items parents (list_extend s1 items a))"

definition get :: "(cls \<Rightarrow> cls list) \<Rightarrow> 'i pystate \<Rightarrow> cls \<Rightarrow> addr \<times> 'i pystate" where
  "get mro s c =
     (let parents = rev (butlast (mro c)) in
      case new_list s of (items, s1) \<Rightarrow> (items, get_loop items parents s1))"

text \<open>A history of calls on one registry, run from a starting state.\<close>

datatype 'i call = Register cls 'i | Get cls

fun run_call :: "(cls \<Rightarrow> cls list) \<Rightarrow> 'i call \<Rightarrow> 'i pystate \<Rightarrow> 'i pystate" where
  "run_call mro (Register c item) s = register s c item"
| "run_call mro (Get c) s = snd (get mro s c)"

definition run_calls :: "(cls \<Rightarrow> cls list) \<Rightarrow> 'i call list \<Rightarrow> 'i pystate \<Rightarrow> 'i pystate" where
  "run_calls mro calls s = fold (run_call mro) calls s"

subsection \<open>What the specification says about resolution\<close>

text \<open>The register calls of a history, in call order.\<close>

fun registrations :: "'i call list \<Rightarrow> (cls \<times> 'i) list" where
  "registrations [] = []"
| "registrations (Register c item # calls) = (c, item) # registrations calls"
| "registrations (Get c # calls) = registrations calls"

text \<open>The items registered directly on a class, in call order.\<close>

definition registered :: "(cls \<times> 'i) list \<Rightarrow> cls \<Rightarrow> 'i list" where
  "registered regs c = map snd (filter (\<lambda>r. fst r = c) regs)"

text \<open>
  The resolved descriptor sequence in the specification's words: the directly registered
  lists of the ancestors, the most general first and the class itself last.
\<close>

definition resolved :: "(cls \<Rightarrow> cls list) \<Rightarrow> (cls \<times> 'i) list \<Rightarrow> cls \<Rightarrow> 'i list" where
  "resolved mro regs c = concat (map (registered regs) (rev (butlast (mro c))))"

text \<open>The list a class has in the dictionary, read through the store.\<close>

definition stored :: "'i pystate \<Rightarrow> cls \<Rightarrow> 'i list option" where
  "stored s c = map_option (deref s) (registry s c)"

definition stored_list :: "'i pystate \<Rightarrow> cls \<Rightarrow> 'i list" where
  "stored_list s c = (case stored s c of Some xs \<Rightarrow> xs | None \<Rightarrow> [])"

text \<open>
  The invariant of the store: every list of the dictionary is allocated, and no two
  classes share a list object.
\<close>

definition wf_state :: "'i pystate \<Rightarrow> bool" where
  "wf_state s \<longleftrightarrow>
     (\<forall>c a. registry s c = Some a \<longrightarrow> a < next_addr s) \<and>
     (\<forall>c c' a. registry s c = Some a \<and> registry s c' = Some a \<longrightarrow> c = c')"

section \<open>Python values and built-in functions\<close>

text \<open>
  The exceptions the modelled code can raise. A function that can raise returns
  \<open>error + 'a\<close>, with \<open>Inl\<close> for the exception.
\<close>

datatype error = ValueError | TypeError | OverflowError | AttributeError

text \<open>
  A float is a binary64 number: a finite value (kept as the rational it denotes; the
  sign of zero is not kept), an infinity or a NaN.
\<close>

datatype pyfloat = Finite rat | PosInf | NegInf | NaN

text \<open>A member of an \<^verbatim>\<open>Enum\<close> class: the class, the member's name and its value.\<close>

datatype enum_member =
  EnumMember (member_class: string) (member_name: string) (member_value: string)

text \<open>
  Python values, as far as the codecs meet them. A dictionary is an association list in
  insertion order. An object carries the name of its class, its \<^verbatim>\<open>ns\<close> attribute and its
  other attributes.
\<close>

datatype pyval =
    VNone
  | VBool bool
  | VInt int
  | VFloat pyfloat
  | VStr string
  | VEnum enum_member
  | VList "pyval list"
  | VDict "(string \<times> pyval) list"
  | VObj pyobj
and pyobj =
    PyObj (type_name: cls) (obj_ns: string) (obj_attrs: "(string \<times> pyval) list")

type_synonym pydict = "(string \<times> pyval) list"

text \<open>\<^verbatim>\<open>d[k] = v\<close> is \<^const>\<open>AList.update\<close>; \<^verbatim>\<open>d.update(other)\<close> assigns each entry in turn.\<close>

definition dict_update :: "pydict \<Rightarrow> pydict \<Rightarrow> pydict" where
  "dict_update d other = fold (\<lambda>kv acc. AList.update (fst kv) (snd kv) acc) other d"

text \<open>
  \<^verbatim>\<open>getattr(obj, attr_name, None)\<close>. The attribute \<^verbatim>\<open>ns\<close> is the field \<open>obj_ns\<close>; the other
  data attributes of the instance are the entries of \<open>obj_attrs\<close>. Methods and class
  attributes are not modelled: a name is the name of a data attribute.
\<close>

definition getattr_default :: "pyobj \<Rightarrow> string \<Rightarrow> pyval" where
  "getattr_default obj a =
     (if a = ''ns'' then VStr (obj_ns obj)
      else case map_of (obj_attrs obj) a of Some v \<Rightarrow> v | None \<Rightarrow> VNone)"

text \<open>
  Truth value testing. An enum member and an object are true (the classes of
  \<^verbatim>\<open>fastkml.base\<close> and \<^verbatim>\<open>fastkml.enums\<close> are taken to define neither \<^verbatim>\<open>__bool__\<close> nor
  \<^verbatim>\<open>__len__\<close>).
\<close>

fun truthy :: "pyval \<Rightarrow> bool" where
  "truthy VNone = False"
| "truthy (VBool b) = b"
| "truthy (VInt i) = (i \<noteq> 0)"
| "truthy (VFloat f) = (f \<noteq> Finite 0)"
| "truthy (VStr s) = (s \<noteq> [])"
| "truthy (VEnum m) = True"
| "truthy (VList xs) = (xs \<noteq> [])"
| "truthy (VDict d) = (d \<noteq> [])"
| "truthy (VObj ob) = True"

subsection \<open>Strings\<close>

text \<open>
  A string is a list of characters with code points below 256. \<^verbatim>\<open>str.strip()\<close> removes
  the characters for which \<^verbatim>\<open>str.isspace()\<close> holds from both ends; \<^verbatim>\<open>str.lower()\<close> maps
  the upper-case letters of that range to lower case.
\<close>

definition is_space :: "char \<Rightarrow> bool" where
  "is_space c =
     (let n = (of_char c :: nat)
      in (9 \<le> n \<and> n \<le> 13) \<or> (28 \<le> n \<and> n \<le> 32) \<or> n = 133 \<or> n = 160)"

definition strip :: "string \<Rightarrow> string" where
  "strip s = rev (dropWhile is_space (rev (dropWhile is_space s)))"

definition lower_char :: "char \<Rightarrow> char" where
  "lower_char c =
     (let n = (of_char c :: nat)
      in if (65 \<le> n \<and> n \<le> 90) \<or> (192 \<le> n \<and> n \<le> 222 \<and> n \<noteq> 215)
         then char_of (n + 32) else c)"

definition lower :: "string \<Rightarrow> string" where
  "lower s = map lower_char s"

text \<open>An f-string field: \<^verbatim>\<open>None\<close> is formatted as the text \<^verbatim>\<open>None\<close>.\<close>

definition format_opt :: "string option \<Rightarrow> string" where
  "format_opt x = (case x of Some s \<Rightarrow> s | None \<Rightarrow> ''None'')"

subsection \<open>Numbers from text\<close>

definition is_digit :: "char \<Rightarrow> bool" where
  "is_digit c = (let n = (of_char c :: nat) in 48 \<le> n \<and> n \<le> 57)"

definition digit_val :: "char \<Rightarrow> int" where
  "digit_val c = (of_char c :: int) - 48"

definition int_of_digits :: "string \<Rightarrow> int" where
  "int_of_digits ds = foldl (\<lambda>acc c. acc * 10 + digit_val c) 0 ds"

text \<open>
  A digit part is a digit followed by digits, each optionally preceded by one underscore.
  \<open>digitpart_rest\<close> reads what follows the first digit; \<open>take_digitpart\<close> returns the
  digits read and the text left, or \<open>None\<close> when the text does not start with a digit.
\<close>

fun digitpart_rest :: "string \<Rightarrow> string \<times> string" where
  "digitpart_rest [] = ([], [])"
| "digitpart_rest [c] = (if is_digit c then ([c], []) else ([], [c]))"
| "digitpart_rest (c # d # cs) =
     (if is_digit c then (case digitpart_rest (d # cs) of (ds, r) \<Rightarrow> (c # ds, r))
      else if c = CHR ''_'' \<and> is_digit d then (case digitpart_rest cs of (ds, r) \<Rightarrow> (d # ds, r))
      else ([], c # d # cs))"

definition take_digitpart :: "string \<Rightarrow> (string \<times> string) option" where
  "take_digitpart s =
     (case s of
        [] \<Rightarrow> None
      | c # cs \<Rightarrow>
          if is_digit c then (case digitpart_rest cs of (ds, r) \<Rightarrow> Some (c # ds, r))
          else None)"

text \<open>An optional sign: the factor and the text after it.\<close>

definition take_sign :: "string \<Rightarrow> int \<times> string" where
  "take_sign s =
     (case s of
        [] \<Rightarrow> (1, [])
      | c # cs \<Rightarrow>
          if c = CHR ''-'' then (- 1, cs) else if c = CHR ''+'' then (1, cs) else (1, s))"

text \<open>
  The white space that \<^verbatim>\<open>int\<close> and \<^verbatim>\<open>float\<close> skip at both ends of their argument: the
  characters 9 to 13, the space, and the characters 133 and 160 (the separators 28 to 31,
  which \<^verbatim>\<open>str.strip()\<close> removes, are not skipped).
\<close>

definition is_num_space :: "char \<Rightarrow> bool" where
  "is_num_space c =
     (let n = (of_char c :: nat) in (9 \<le> n \<and> n \<le> 13) \<or> n = 32 \<or> n = 133 \<or> n = 160)"

definition strip_num :: "string \<Rightarrow> string" where
  "strip_num s = rev (dropWhile is_num_space (rev (dropWhile is_num_space s)))"

text \<open>
  \<^verbatim>\<open>int(text)\<close> in base ten: optional white space, an optional sign, a digit part. Anything
  else raises \<^verbatim>\<open>ValueError\<close>, and so does a text of more than 4300 digits (the default
  limit of the interpreter for the conversion).
\<close>

definition py_int :: "string \<Rightarrow> error + int" where
  "py_int s =
     (case take_sign (strip_num s) of (sign, body) \<Rightarrow>
        (case take_digitpart body of
           None \<Rightarrow> Inl ValueError
         | Some (ds, r) \<Rightarrow>
             if r = [] \<and> length ds \<le> 4300 then Inr (sign * int_of_digits ds)
             else Inl ValueError))"

text \<open>\<^verbatim>\<open>str(n)\<close> of an integer.\<close>

fun digits_of_nat :: "nat \<Rightarrow> string" where
  "digits_of_nat n =
     (if n < 10 then [char_of (48 + n)] else digits_of_nat (n div 10) @ [char_of (48 + n mod 10)])"

definition str_of_int :: "int \<Rightarrow> string" where
  "str_of_int i = (if i < 0 then CHR ''-'' # digits_of_nat (nat (- i)) else digits_of_nat (nat i))"

subsection \<open>Floats from text\<close>

definition pow2 :: "int \<Rightarrow> rat" where
  "pow2 k = (if 0 \<le> k then 2 ^ nat k else 1 / 2 ^ nat (- k))"

definition pow10 :: "int \<Rightarrow> rat" where
  "pow10 k = (if 0 \<le> k then 10 ^ nat k else 1 / 10 ^ nat (- k))"

function bit_length :: "int \<Rightarrow> int" where
  "bit_length n = (if n \<le> 0 then 0 else 1 + bit_length (n div 2))"
  by pat_completeness auto
termination
  by (relation "measure nat") auto

text \<open>For \<open>0 < x\<close>, the exponent \<open>e\<close> with \<open>2 ^ e \<le> x < 2 ^ (e + 1)\<close>.\<close>

definition ilog2 :: "rat \<Rightarrow> int" where
  "ilog2 x =
     (case quotient_of x of (n, d) \<Rightarrow>
        (let e0 = bit_length n - bit_length d
         in if pow2 e0 \<le> x then e0 else e0 - 1))"

definition round_half_even :: "rat \<Rightarrow> int" where
  "round_half_even x =
     (let f = \<lfloor>x\<rfloor>; d = x - of_int f
      in if d < 1 / 2 then f else if 1 / 2 < d then f + 1 else if even f then f else f + 1)"

text \<open>
  The binary64 number nearest to a rational (ties to the even significand): 53 bits of
  significand, the least exponent -1022, and an infinity from \<open>2 ^ 1024\<close> on.
\<close>

definition round_binary64 :: "rat \<Rightarrow> pyfloat" where
  "round_binary64 x =
     (if x = 0 then Finite 0
      else
        (let a = \<bar>x\<bar>;
             e = max (ilog2 a) (- 1022);
             ulp = pow2 (e - 52);
             r = of_int (round_half_even (a / ulp)) * ulp
         in if pow2 1024 \<le> r then (if 0 < x then PosInf else NegInf)
            else Finite (if 0 < x then r else - r)))"

text \<open>
  The number part of a float literal, \<^verbatim>\<open>[digitpart] "." digitpart | digitpart ["."]\<close>: the
  digits before the point, the digits after it and the text left.
\<close>

definition take_number :: "string \<Rightarrow> (string \<times> string \<times> string) option" where
  "take_number s =
     (case take_digitpart s of
        Some (ip, r) \<Rightarrow>
          if r \<noteq> [] \<and> hd r = CHR ''.'' then
            (case take_digitpart (tl r) of
               Some (fp, r') \<Rightarrow> Some (ip, fp, r')
             | None \<Rightarrow> Some (ip, [], tl r))
          else Some (ip, [], r)
      | None \<Rightarrow>
          if s \<noteq> [] \<and> hd s = CHR ''.'' then
            (case take_digitpart (tl s) of
               Some (fp, r') \<Rightarrow> Some ([], fp, r')
             | None \<Rightarrow> None)
          else None)"

text \<open>The exponent part, \<^verbatim>\<open>("e" | "E") [sign] digitpart\<close>, which must end the text.\<close>

definition take_exponent :: "string \<Rightarrow> int option" where
  "take_exponent s =
     (if s = [] then Some 0
      else if hd s = CHR ''e'' \<or> hd s = CHR ''E'' then
        (case take_sign (tl s) of (sign, body) \<Rightarrow>
           (case take_digitpart body of
              None \<Rightarrow> None
            | Some (ds, r) \<Rightarrow> if r = [] then Some (sign * int_of_digits ds) else None))
      else None)"

text \<open>
  \<^verbatim>\<open>float(text)\<close>: optional white space, an optional sign, then \<^verbatim>\<open>inf\<close>, \<^verbatim>\<open>infinity\<close> or
  \<^verbatim>\<open>nan\<close> in any case, or a decimal number with an optional exponent. Anything else raises
  \<^verbatim>\<open>ValueError\<close>; a number too large is an infinity, not an error.
\<close>

definition py_float :: "string \<Rightarrow> error + pyfloat" where
  "py_float s =
     (case take_sign (strip_num s) of (sign, body) \<Rightarrow>
        if lower body = ''inf'' \<or> lower body = ''infinity'' then
          Inr (if 0 < sign then PosInf else NegInf)
        else if lower body = ''nan'' then Inr NaN
        else
          (case take_number body of
             None \<Rightarrow> Inl ValueError
           | Some (ip, fp, r) \<Rightarrow>
               (case take_exponent r of
                  None \<Rightarrow> Inl ValueError
                | Some ex \<Rightarrow>
                    Inr (round_binary64
                      (of_int (sign * int_of_digits (ip @ fp))
                         * pow10 (ex - int (length fp)))))))"

text \<open>
  \<^verbatim>\<open>int(x)\<close> of a float truncates towards zero; an infinity raises \<^verbatim>\<open>OverflowError\<close> and a
  NaN raises \<^verbatim>\<open>ValueError\<close>.
\<close>

fun int_of_float :: "pyfloat \<Rightarrow> error + int" where
  "int_of_float (Finite q) = Inr (if 0 \<le> q then \<lfloor>q\<rfloor> else - \<lfloor>- q\<rfloor>)"
| "int_of_float PosInf = Inl OverflowError"
| "int_of_float NegInf = Inl OverflowError"
| "int_of_float NaN = Inl ValueError"

text \<open>\<^verbatim>\<open>int(x)\<close> of any value, as \<^verbatim>\<open>bool_subelement\<close> applies it to an attribute.\<close>

fun py_int_of :: "pyval \<Rightarrow> error + int" where
  "py_int_of (VBool b) = Inr (if b then 1 else 0)"
| "py_int_of (VInt i) = Inr i"
| "py_int_of (VFloat f) = int_of_float f"
| "py_int_of (VStr s) = py_int s"
| "py_int_of v = Inl TypeError"

section \<open>The element tree\<close>

text \<open>
  Modelled from the spec: the tree provider \<^verbatim>\<open>config.etree\<close> (the module
  \<^verbatim>\<open>fastkml.config\<close> is not among the sources), by the tree-access contract of section 6:
  find the first child by qualified name, find all children by qualified name in order,
  read and write the text of a node, append a child node, create a child node under a
  parent with a qualified name. A qualified name is a namespace prefix followed by the
  bare tag name. An element is its tag, its text (a text or absent) and its children in
  document order.
\<close>

datatype element =
  Element (tag: string) (text_of: "string option") (children: "element list")

text \<open>
  Modelled from the spec: \<^verbatim>\<open>element.find(name)\<close> of the tree provider, the contract's
  \<^verbatim>\<open>find_child(node, qualified_name) -> node|absent\<close>: the first child with that qualified
  name, or \<^verbatim>\<open>None\<close>.
\<close>

definition find_child :: "element \<Rightarrow> string \<Rightarrow> element option" where
  "find_child e name = List.find (\<lambda>c. tag c = name) (children e)"

text \<open>
  Modelled from the spec: \<^verbatim>\<open>element.findall(name)\<close> of the tree provider, the contract's
  \<^verbatim>\<open>find_all_children(node, qualified_name) -> ordered sequence of node\<close>: all children with
  that qualified name, in document order.
\<close>

definition findall :: "element \<Rightarrow> string \<Rightarrow> element list" where
  "findall e name = filter (\<lambda>c. tag c = name) (children e)"

text \<open>
  Modelled from the spec: \<^verbatim>\<open>element.append(child)\<close> of the tree provider, the contract's
  \<^verbatim>\<open>append_child(parent, node)\<close>. The element is changed in place; the model returns it.
\<close>

definition append_child :: "element \<Rightarrow> element \<Rightarrow> element" where
  "append_child e child = Element (tag e) (text_of e) (children e @ [child])"

text \<open>
  Modelled from the spec: \<^verbatim>\<open>SubElement(element, name)\<close> of the tree provider followed by
  \<^verbatim>\<open>subelement.text = t\<close>, the contract's \<^verbatim>\<open>create_child(parent, qualified_name) -> node\<close>
  and \<^verbatim>\<open>set_text(node, text)\<close>: a new last child with that qualified name and text and no
  children.
\<close>

definition SubElement_with_text :: "element \<Rightarrow> string \<Rightarrow> string \<Rightarrow> element" where
  "SubElement_with_text e name t = append_child e (Element name (Some t) [])"

text \<open>The test \<^verbatim>\<open>node.text and node.text.strip()\<close>.\<close>

definition has_text :: "element \<Rightarrow> bool" where
  "has_text node = (case text_of node of None \<Rightarrow> False | Some t \<Rightarrow> t \<noteq> [] \<and> strip t \<noteq> [])"

text \<open>\<^verbatim>\<open>node.text.strip()\<close>, read where \<open>has_text\<close> holds.\<close>

definition stripped_text :: "element \<Rightarrow> string" where
  "stripped_text node = (case text_of node of None \<Rightarrow> [] | Some t \<Rightarrow> strip t)"

section \<open>Classes\<close>

text \<open>
  An \<^verbatim>\<open>Enum\<close> class: its name and its members (name and value) in definition order.
  Calling the class with a value returns the member with that value or raises
  \<^verbatim>\<open>ValueError\<close>.
\<close>

datatype enum_class = EnumClass (enum_name: string) (enum_members: "(string \<times> string) list")

definition enum_call :: "enum_class \<Rightarrow> string \<Rightarrow> error + pyval" where
  "enum_call ec v =
     (case List.find (\<lambda>m. snd m = v) (enum_members ec) of
        None \<Rightarrow> Inl ValueError
      | Some m \<Rightarrow> Inr (VEnum (EnumMember (enum_name ec) (fst m) v)))"

type_synonym name_spaces = "(string \<times> string) list option"

text \<open>
  The verbosity is a member of \<^verbatim>\<open>fastkml.enums.Verbosity\<close> (named by its name) or
  \<^verbatim>\<open>None\<close>; the codecs only pass it on.
\<close>

type_synonym verbosity = "string option"

text \<open>
  A participating class, by what the codecs ask of it: \<^verbatim>\<open>get_tag_name()\<close> and
  \<^verbatim>\<open>class_from_element(ns, name_spaces, element, strict)\<close>. Both are defined in
  \<^verbatim>\<open>fastkml.base\<close>, which is not among the sources, so a class carries them.
\<close>

record xml_class =
  class_name :: cls
  get_tag_name :: string
  class_from_element :: "string \<Rightarrow> name_spaces \<Rightarrow> element \<Rightarrow> bool \<Rightarrow> error + pyobj"

datatype known_type =
    XmlType xml_class
  | EnumType enum_class
  | BoolType
  | IntType
  | StrType
  | FloatType

section \<open>The codec library (helpers.py)\<close>

subsection \<open>Encoders\<close>

text \<open>
  Each encoder takes the object, the destination element, the attribute name, the node
  name, the precision and the verbosity. The child's tag is \<^verbatim>\<open>f"{obj.ns}{node_name}"\<close>.

  \<^verbatim>\<open>
  def text_subelement(obj, *, element, attr_name, node_name, precision=None, verbosity=None):
      if getattr(obj, attr_name, None):
          subelement = config.etree.SubElement(element, f"{obj.ns}{node_name}")
          subelement.text = getattr(obj, attr_name)
  \<close>
  The text of a node is a text (\<^verbatim>\<open>set_text(node, text)\<close> of the contract): assigning a value
  that is not a string raises \<^verbatim>\<open>TypeError\<close>.
\<close>

definition text_subelement ::
  "pyobj \<Rightarrow> element \<Rightarrow> string \<Rightarrow> string option \<Rightarrow> int option \<Rightarrow> verbosity \<Rightarrow> error + element"
where
  "text_subelement obj element attr_name node_name precision verb =
     (if truthy (getattr_default obj attr_name) then
        (case getattr_default obj attr_name of
           VStr s \<Rightarrow> Inr (SubElement_with_text element (obj_ns obj @ format_opt node_name) s)
         | _ \<Rightarrow> Inl TypeError)
      else Inr element)"

text \<open>
  \<^verbatim>\<open>
      if getattr(obj, attr_name, None) is not None:
          subelement = config.etree.SubElement(element, f"{obj.ns}{node_name}")
          subelement.text = str(int(getattr(obj, attr_name)))
  \<close>
\<close>

definition bool_subelement ::
  "pyobj \<Rightarrow> element \<Rightarrow> string \<Rightarrow> string option \<Rightarrow> int option \<Rightarrow> verbosity \<Rightarrow> error + element"
where
  "bool_subelement obj element attr_name node_name precision verb =
     (if getattr_default obj attr_name \<noteq> VNone then
        (case py_int_of (getattr_default obj attr_name) of
           Inl e \<Rightarrow> Inl e
         | Inr n \<Rightarrow>
             Inr (SubElement_with_text element (obj_ns obj @ format_opt node_name) (str_of_int n)))
      else Inr element)"

text \<open>
  \<^verbatim>\<open>int_subelement\<close> and \<^verbatim>\<open>float_subelement\<close> have the same body:
  \<^verbatim>\<open>
      if getattr(obj, attr_name, None) is not None:
          subelement = config.etree.SubElement(element, f"{obj.ns}{node_name}")
          subelement.text = str(getattr(obj, attr_name))
  \<close>
  The built-in \<^verbatim>\<open>str\<close> (which also formats floats, lists and objects) is the parameter
  \<open>py_str\<close>.
\<close>

definition int_subelement ::
  "(pyval \<Rightarrow> string) \<Rightarrow> pyobj \<Rightarrow> element \<Rightarrow> string \<Rightarrow> string option \<Rightarrow> int option \<Rightarrow> verbosity
     \<Rightarrow> error + element"
where
  "int_subelement py_str obj element attr_name node_name precision verb =
     (if getattr_default obj attr_name \<noteq> VNone then
        Inr (SubElement_with_text element (obj_ns obj @ format_opt node_name)
               (py_str (getattr_default obj attr_name)))
      else Inr element)"

definition float_subelement ::
  "(pyval \<Rightarrow> string) \<Rightarrow> pyobj \<Rightarrow> element \<Rightarrow> string \<Rightarrow> string option \<Rightarrow> int option \<Rightarrow> verbosity
     \<Rightarrow> error + element"
where
  "float_subelement py_str obj element attr_name node_name precision verb =
     (if getattr_default obj attr_name \<noteq> VNone then
        Inr (SubElement_with_text element (obj_ns obj @ format_opt node_name)
               (py_str (getattr_default obj attr_name)))
      else Inr element)"

text \<open>
  \<^verbatim>\<open>
      if getattr(obj, attr_name, None):
          subelement = config.etree.SubElement(element, f"{obj.ns}{node_name}")
          subelement.text = getattr(obj, attr_name).value
  \<close>
  An enum member has the attribute \<^verbatim>\<open>value\<close>; an object has it when \<^verbatim>\<open>value\<close> is one of
  its data attributes (and the text must be a string); no other value has it.
\<close>

definition enum_subelement ::
  "pyobj \<Rightarrow> element \<Rightarrow> string \<Rightarrow> string option \<Rightarrow> int option \<Rightarrow> verbosity \<Rightarrow> error + element"
where
  "enum_subelement obj element attr_name node_name precision verb =
     (if truthy (getattr_default obj attr_name) then
        (case getattr_default obj attr_name of
           VEnum m \<Rightarrow>
             Inr (SubElement_with_text element (obj_ns obj @ format_opt node_name) (member_value m))
         | VObj ob \<Rightarrow>
             (case map_of (obj_attrs ob) ''value'' of
                None \<Rightarrow> Inl AttributeError
              | Some v \<Rightarrow>
                  (case v of
                     VStr t \<Rightarrow>
                       Inr (SubElement_with_text element (obj_ns obj @ format_opt node_name) t)
                   | _ \<Rightarrow> Inl TypeError))
         | _ \<Rightarrow> Inl AttributeError)
      else Inr element)"

text \<open>
  \<^verbatim>\<open>
      if getattr(obj, attr_name, None):
          element.append(getattr(obj, attr_name).etree_element(
              precision=precision, verbosity=verbosity))
  \<close>
  The method \<^verbatim>\<open>etree_element\<close> of the nested object belongs to its class (not among the
  sources): it is the parameter \<open>etree_element\<close>. Only an object has the method.
\<close>

definition xml_subelement ::
  "(pyobj \<Rightarrow> int option \<Rightarrow> verbosity \<Rightarrow> error + element)
     \<Rightarrow> pyobj \<Rightarrow> element \<Rightarrow> string \<Rightarrow> string option \<Rightarrow> int option \<Rightarrow> verbosity \<Rightarrow> error + element"
where
  "xml_subelement etree_element obj element attr_name node_name precision verb =
     (if truthy (getattr_default obj attr_name) then
        (case getattr_default obj attr_name of
           VObj ob \<Rightarrow>
             (case etree_element ob precision verb of
                Inl e \<Rightarrow> Inl e
              | Inr child \<Rightarrow> Inr (append_child element child))
         | _ \<Rightarrow> Inl AttributeError)
      else Inr element)"

text \<open>
  \<^verbatim>\<open>
      if getattr(obj, attr_name, None):
          for item in getattr(obj, attr_name):
              element.append(item.etree_element(precision=precision, verbosity=verbosity))
  \<close>
  A list is iterated; a non-empty string or dictionary yields items without the method;
  the other true values are not iterable.
\<close>

fun append_all ::
  "(pyobj \<Rightarrow> int option \<Rightarrow> verbosity \<Rightarrow> error + element)
     \<Rightarrow> pyval list \<Rightarrow> element \<Rightarrow> int option \<Rightarrow> verbosity \<Rightarrow> error + element"
where
  "append_all etree_element [] element precision verb = Inr element"
| "append_all etree_element (item # items) element precision verb =
     (case item of
        VObj ob \<Rightarrow>
          (case etree_element ob precision verb of
             Inl e \<Rightarrow> Inl e
           | Inr child \<Rightarrow> append_all etree_element items (append_child element child) precision verb)
      | _ \<Rightarrow> Inl AttributeError)"

definition xml_subelement_list ::
  "(pyobj \<Rightarrow> int option \<Rightarrow> verbosity \<Rightarrow> error + element)
     \<Rightarrow> pyobj \<Rightarrow> element \<Rightarrow> string \<Rightarrow> string option \<Rightarrow> int option \<Rightarrow> verbosity \<Rightarrow> error + element"
where
  "xml_subelement_list etree_element obj element attr_name node_name precision verb =
     (if truthy (getattr_default obj attr_name) then
        (case getattr_default obj attr_name of
           VList items \<Rightarrow> append_all etree_element items element precision verb
         | VStr s \<Rightarrow> Inl AttributeError
         | VDict d \<Rightarrow> Inl AttributeError
         | _ \<Rightarrow> Inl TypeError)
      else Inr element)"

subsection \<open>Decoders\<close>

text \<open>
  Each decoder returns a dictionary with no entry or one entry under \<open>kwarg\<close>.
  \<^verbatim>\<open>
  def subelement_text_kwarg(*, element, ns, name_spaces=None, node_name, kwarg, strict):
      node = element.find(f"{ns}{node_name}")
      if node is None:
          return {}
      return {kwarg: node.text.strip()} if node.text and node.text.strip() else {}
  \<close>
\<close>

definition subelement_text_kwarg ::
  "element \<Rightarrow> string \<Rightarrow> name_spaces \<Rightarrow> string \<Rightarrow> string \<Rightarrow> bool \<Rightarrow> error + pydict"
where
  "subelement_text_kwarg element ns nsp node_name kwarg strict =
     (case find_child element (ns @ node_name) of
        None \<Rightarrow> Inr []
      | Some node \<Rightarrow> Inr (if has_text node then [(kwarg, VStr (stripped_text node))] else []))"

text \<open>
  \<^verbatim>\<open>
      if node.text and node.text.strip():
          if strict:
              return {kwarg: bool(int(node.text.strip()))}
          if node.text.strip().lower() in {"1", "true"}:
              return {kwarg: True}
          if node.text.strip().lower() in {"0", "false"}:
              return {kwarg: False}
          try:
              return {kwarg: bool(int(float(node.text.strip())))}
          except ValueError:
              return {}
      return {}
  \<close>
\<close>

definition subelement_bool_kwarg ::
  "element \<Rightarrow> string \<Rightarrow> name_spaces \<Rightarrow> string \<Rightarrow> string \<Rightarrow> bool \<Rightarrow> error + pydict"
where
  "subelement_bool_kwarg element ns nsp node_name kwarg strict =
     (case find_child element (ns @ node_name) of
        None \<Rightarrow> Inr []
      | Some node \<Rightarrow>
          if has_text node then
            if strict then
              (case py_int (stripped_text node) of
                 Inl e \<Rightarrow> Inl e
               | Inr n \<Rightarrow> Inr [(kwarg, VBool (n \<noteq> 0))])
            else if lower (stripped_text node) \<in> set [''1'', ''true''] then
              Inr [(kwarg, VBool True)]
            else if lower (stripped_text node) \<in> set [''0'', ''false''] then
              Inr [(kwarg, VBool False)]
            else
              (case py_float (stripped_text node) of
                 Inl e \<Rightarrow> if e = ValueError then Inr [] else Inl e
               | Inr f \<Rightarrow>
                   (case int_of_float f of
                      Inl e \<Rightarrow> if e = ValueError then Inr [] else Inl e
                    | Inr n \<Rightarrow> Inr [(kwarg, VBool (n \<noteq> 0))]))
          else Inr [])"

text \<open>
  \<^verbatim>\<open>
      if node.text and node.text.strip():
          try:
              return {kwarg: int(node.text.strip())}
          except ValueError:
              if strict:
                  raise
              return {}
      return {}
  \<close>
\<close>

definition subelement_int_kwarg ::
  "element \<Rightarrow> string \<Rightarrow> name_spaces \<Rightarrow> string \<Rightarrow> string \<Rightarrow> bool \<Rightarrow> error + pydict"
where
  "subelement_int_kwarg element ns nsp node_name kwarg strict =
     (case find_child element (ns @ node_name) of
        None \<Rightarrow> Inr []
      | Some node \<Rightarrow>
          if has_text node then
            (case py_int (stripped_text node) of
               Inl e \<Rightarrow> if e = ValueError then (if strict then Inl e else Inr []) else Inl e
             | Inr n \<Rightarrow> Inr [(kwarg, VInt n)])
          else Inr [])"

text \<open>The float decoder has the same body with \<^verbatim>\<open>float\<close> in place of \<^verbatim>\<open>int\<close>.\<close>

definition subelement_float_kwarg ::
  "element \<Rightarrow> string \<Rightarrow> name_spaces \<Rightarrow> string \<Rightarrow> string \<Rightarrow> bool \<Rightarrow> error + pydict"
where
  "subelement_float_kwarg element ns nsp node_name kwarg strict =
     (case find_child element (ns @ node_name) of
        None \<Rightarrow> Inr []
      | Some node \<Rightarrow>
          if has_text node then
            (case py_float (stripped_text node) of
               Inl e \<Rightarrow> if e = ValueError then (if strict then Inl e else Inr []) else Inl e
             | Inr f \<Rightarrow> Inr [(kwarg, VFloat f)])
          else Inr [])"

text \<open>
  \<^verbatim>\<open>
  def subelement_enum_kwarg(*, element, ns, name_spaces=None, node_name, kwarg,
                            enum_class, strict):
      node = element.find(f"{ns}{node_name}")
      if node is None:
          return {}
      if node.text and node.text.strip():
          return {kwarg: enum_class(node.text.strip())}
      return {}
  \<close>
  The parameter \<^verbatim>\<open>enum_class\<close> is written \<open>enum_cls\<close>.
\<close>

definition subelement_enum_kwarg ::
  "element \<Rightarrow> string \<Rightarrow> name_spaces \<Rightarrow> string \<Rightarrow> string \<Rightarrow> enum_class \<Rightarrow> bool \<Rightarrow> error + pydict"
where
  "subelement_enum_kwarg element ns nsp node_name kwarg enum_cls strict =
     (case find_child element (ns @ node_name) of
        None \<Rightarrow> Inr []
      | Some node \<Rightarrow>
          if has_text node then
            (case enum_call enum_cls (stripped_text node) of
               Inl e \<Rightarrow> Inl e
             | Inr m \<Rightarrow> Inr [(kwarg, m)])
          else Inr [])"

text \<open>
  \<^verbatim>\<open>
  def xml_subelement_kwarg(*, element, ns, name_spaces, node_name=None, kwarg,
                           obj_class, strict):
      subelement = element.find(f"{ns}{obj_class.get_tag_name()}")
      if subelement is None:
          return {}
      return {kwarg: obj_class.class_from_element(ns=ns, name_spaces=name_spaces,
                                                  element=subelement, strict=strict)}
  \<close>
\<close>

definition xml_subelement_kwarg ::
  "element \<Rightarrow> string \<Rightarrow> name_spaces \<Rightarrow> string option \<Rightarrow> string \<Rightarrow> xml_class \<Rightarrow> bool
     \<Rightarrow> error + pydict"
where
  "xml_subelement_kwarg element ns nsp node_name kwarg obj_class strict =
     (case find_child element (ns @ get_tag_name obj_class) of
        None \<Rightarrow> Inr []
      | Some subelement \<Rightarrow>
          (case class_from_element obj_class ns nsp subelement strict of
             Inl e \<Rightarrow> Inl e
           | Inr ob \<Rightarrow> Inr [(kwarg, VObj ob)]))"

text \<open>
  \<^verbatim>\<open>
  def xml_subelement_list_kwarg(*, element, ns, name_spaces, kwarg, obj_classes, strict):
      args_list = []
      for obj_class in obj_classes:
          if subelements := element.findall(f"{ns}{obj_class.get_tag_name()}"):
              args_list.extend([
                  obj_class.class_from_element(ns=ns, name_spaces=name_spaces,
                                               element=subelement, strict=strict)
                  for subelement in subelements])
      return {kwarg: args_list}
  \<close>
  \<open>from_elements\<close> is the list comprehension, \<open>list_kwarg_loop\<close> the loop over the classes.
\<close>

fun from_elements ::
  "xml_class \<Rightarrow> string \<Rightarrow> name_spaces \<Rightarrow> bool \<Rightarrow> element list \<Rightarrow> error + pyval list"
where
  "from_elements obj_class ns nsp strict [] = Inr []"
| "from_elements obj_class ns nsp strict (subelement # subelements) =
     (case class_from_element obj_class ns nsp subelement strict of
        Inl e \<Rightarrow> Inl e
      | Inr ob \<Rightarrow>
          (case from_elements obj_class ns nsp strict subelements of
             Inl e \<Rightarrow> Inl e
           | Inr obs \<Rightarrow> Inr (VObj ob # obs)))"

fun list_kwarg_loop ::
  "xml_class list \<Rightarrow> element \<Rightarrow> string \<Rightarrow> name_spaces \<Rightarrow> bool \<Rightarrow> pyval list \<Rightarrow> error + pyval list"
where
  "list_kwarg_loop [] element ns nsp strict args_list = Inr args_list"
| "list_kwarg_loop (obj_class # obj_classes) element ns nsp strict args_list =
     (let subelements = findall element (ns @ get_tag_name obj_class) in
      if subelements \<noteq> [] then
        (case from_elements obj_class ns nsp strict subelements of
           Inl e \<Rightarrow> Inl e
         | Inr obs \<Rightarrow> list_kwarg_loop obj_classes element ns nsp strict (args_list @ obs))
      else list_kwarg_loop obj_classes element ns nsp strict args_list)"

definition xml_subelement_list_kwarg ::
  "element \<Rightarrow> string \<Rightarrow> name_spaces \<Rightarrow> string \<Rightarrow> xml_class list \<Rightarrow> bool \<Rightarrow> error + pydict"
where
  "xml_subelement_list_kwarg element ns nsp kwarg obj_classes strict =
     (case list_kwarg_loop obj_classes element ns nsp strict [] of
        Inl e \<Rightarrow> Inl e
      | Inr args_list \<Rightarrow> Inr [(kwarg, VList args_list)])"

section \<open>Registry items, decode and encode (registry.py)\<close>

text \<open>
  \<^verbatim>\<open>RegistryItem\<close>, with the two callables typed by the protocols \<^verbatim>\<open>GetKWArgs\<close> (element, ns,
  name_spaces, node_name, attr_name, classes, strict) and \<^verbatim>\<open>SetElement\<close> (obj, element,
  attr_name, node_name, precision, verbosity). \<^verbatim>\<open>set_element\<close> changes the element in
  place; the model returns it.
\<close>

record registry_item =
  classes :: "known_type list"
  attr_name :: string
  get_kwarg :: "element \<Rightarrow> string \<Rightarrow> name_spaces \<Rightarrow> string option \<Rightarrow> string
                  \<Rightarrow> known_type list \<Rightarrow> bool \<Rightarrow> error + pydict"
  set_element :: "pyobj \<Rightarrow> element \<Rightarrow> string \<Rightarrow> string option \<Rightarrow> int option
                  \<Rightarrow> verbosity \<Rightarrow> error + element"
  node_name :: "string option"

text \<open>
  \<^verbatim>\<open>
  def get_kwargs(self, *, cls, element, ns, name_spaces, strict):
      kwargs = {}
      for item in self.get(cls):
          kwargs[item.attr_name] = item.get_kwarg(element=element, ns=ns,
              name_spaces=name_spaces, node_name=item.node_name,
              attr_name=item.attr_name, classes=item.classes, strict=strict)
      return kwargs
  \<close>
  The value assigned under the attribute name is the dictionary that \<^verbatim>\<open>get_kwarg\<close>
  returned.
\<close>

fun get_kwargs_loop ::
  "registry_item list \<Rightarrow> element \<Rightarrow> string \<Rightarrow> name_spaces \<Rightarrow> bool \<Rightarrow> pydict \<Rightarrow> error + pydict"
where
  "get_kwargs_loop [] element ns nsp strict kwargs = Inr kwargs"
| "get_kwargs_loop (item # items) element ns nsp strict kwargs =
     (case get_kwarg item element ns nsp (node_name item) (attr_name item) (classes item) strict of
        Inl e \<Rightarrow> Inl e
      | Inr d \<Rightarrow>
          get_kwargs_loop items element ns nsp strict
            (AList.update (attr_name item) (VDict d) kwargs))"

definition get_kwargs ::
  "(cls \<Rightarrow> cls list) \<Rightarrow> registry_item pystate \<Rightarrow> cls \<Rightarrow> element \<Rightarrow> string \<Rightarrow> name_spaces \<Rightarrow> bool
     \<Rightarrow> (error + pydict) \<times> registry_item pystate"
where
  "get_kwargs mro s c element ns nsp strict =
     (case get mro s c of (items, s1) \<Rightarrow>
        (get_kwargs_loop (deref s1 items) element ns nsp strict [], s1))"

text \<open>
  \<^verbatim>\<open>
  def sub_element(self, *, obj, element, precision, verbosity):
      for item in self.get(type(obj)):
          item.set_element(obj=obj, element=element, attr_name=item.attr_name,
              node_name=item.node_name, precision=precision, verbosity=verbosity)
  \<close>
\<close>

fun sub_element_loop ::
  "registry_item list \<Rightarrow> pyobj \<Rightarrow> element \<Rightarrow> int option \<Rightarrow> verbosity \<Rightarrow> error + element"
where
  "sub_element_loop [] obj element precision verb = Inr element"
| "sub_element_loop (item # items) obj element precision verb =
     (case set_element item obj element (attr_name item) (node_name item) precision verb of
        Inl e \<Rightarrow> Inl e
      | Inr element' \<Rightarrow> sub_element_loop items obj element' precision verb)"

definition sub_element ::
  "(cls \<Rightarrow> cls list) \<Rightarrow> registry_item pystate \<Rightarrow> pyobj \<Rightarrow> element \<Rightarrow> int option \<Rightarrow> verbosity
     \<Rightarrow> (error + element) \<times> registry_item pystate"
where
  "sub_element mro s obj element precision verb =
     (case get mro s (type_name obj) of (items, s1) \<Rightarrow>
        (sub_element_loop (deref s1 items) obj element precision verb, s1))"

subsection \<open>Histories with queries and with changes to returned lists\<close>

text \<open>
  What the callers of one registry can do: register an item, call \<^verbatim>\<open>get\<close> and keep the
  list it returned, call \<^verbatim>\<open>get_kwargs\<close> or \<^verbatim>\<open>sub_element\<close>, and change at any later time
  the contents of a list that an earlier \<^verbatim>\<open>get\<close> returned (\<open>Change k xs\<close>: the list
  returned by \<^verbatim>\<open>get\<close> call number \<open>k\<close> of the history, counted from 0, gets the contents
  \<open>xs\<close>). A run keeps the
  state of the store and the addresses of the lists returned so far.
\<close>

datatype event =
    Do_register cls registry_item
  | Do_get cls
  | Do_get_kwargs cls element string name_spaces bool
  | Do_sub_element pyobj element "int option" verbosity
  | Change nat "registry_item list"

fun run_event ::
  "(cls \<Rightarrow> cls list) \<Rightarrow> event \<Rightarrow> registry_item pystate \<times> addr list
     \<Rightarrow> registry_item pystate \<times> addr list"
where
  "run_event mro (Do_register c item) (s, held) = (register s c item, held)"
| "run_event mro (Do_get c) (s, held) = (snd (get mro s c), held @ [fst (get mro s c)])"
| "run_event mro (Do_get_kwargs c element ns nsp strict) (s, held) =
     (snd (get_kwargs mro s c element ns nsp strict), held)"
| "run_event mro (Do_sub_element obj element precision verb) (s, held) =
     (snd (sub_element mro s obj element precision verb), held)"
| "run_event mro (Change k xs) (s, held) =
     (if k < length held then (list_assign s (held ! k) xs, held) else (s, held))"

definition run_events ::
  "(cls \<Rightarrow> cls list) \<Rightarrow> event list \<Rightarrow> registry_item pystate \<times> addr list
     \<Rightarrow> registry_item pystate \<times> addr list"
where
  "run_events mro evs st = fold (run_event mro) evs st"

text \<open>The register calls of such a history, in call order.\<close>

fun event_registrations :: "event list \<Rightarrow> (cls \<times> registry_item) list" where
  "event_registrations [] = []"
| "event_registrations (Do_register c item # evs) = (c, item) # event_registrations evs"
| "event_registrations (ev # evs) = event_registrations evs"

fun is_change :: "event \<Rightarrow> bool" where
  "is_change (Change k xs) = True"
| "is_change ev = False"

text \<open>The same history with the changes to returned lists left out.\<close>

definition without_changes :: "event list \<Rightarrow> event list" where
  "without_changes evs = filter (\<lambda>ev. \<not> is_change ev) evs"

text \<open>
  The invariant of a run: the store is well formed, nothing is allocated from \<open>next_addr\<close>
  on, and the lists the callers hold are allocated and are not lists of the dictionary.
\<close>

definition wf_run :: "registry_item pystate \<times> addr list \<Rightarrow> bool" where
  "wf_run st \<longleftrightarrow>
     wf_state (fst st) \<and>
     (\<forall>a. next_addr (fst st) \<le> a \<longrightarrow> heap (fst st) a = None) \<and>
     (\<forall>a \<in> set (snd st). a < next_addr (fst st) \<and> a \<notin> ran (registry (fst st)))"

section \<open>Link (links.py)\<close>

subsection \<open>Calls with keyword arguments\<close>

text \<open>
  The decoders take keyword-only parameters. A call binds the keywords it passes to the
  parameters of the function before the body runs: a keyword that names no parameter, or
  a parameter without default that gets no argument, raises \<^verbatim>\<open>TypeError\<close>. A call is
  modelled by its list of keyword and argument.
\<close>

datatype arg =
    AElement element
  | AStr string
  | ANameSpaces name_spaces
  | ABool bool
  | AEnumClass enum_class
  | ATuple "arg list"

definition binds :: "string list \<Rightarrow> string list \<Rightarrow> (string \<times> arg) list \<Rightarrow> bool" where
  "binds required optional kws \<longleftrightarrow>
     list_all (\<lambda>k. k \<in> set (required @ optional)) (map fst kws) \<and>
     list_all (\<lambda>r. r \<in> set (map fst kws)) required"

definition arg_element :: "(string \<times> arg) list \<Rightarrow> string \<Rightarrow> element option" where
  "arg_element kws k = (case map_of kws k of Some (AElement e) \<Rightarrow> Some e | _ \<Rightarrow> None)"

definition arg_str :: "(string \<times> arg) list \<Rightarrow> string \<Rightarrow> string option" where
  "arg_str kws k = (case map_of kws k of Some (AStr x) \<Rightarrow> Some x | _ \<Rightarrow> None)"

definition arg_bool :: "(string \<times> arg) list \<Rightarrow> string \<Rightarrow> bool option" where
  "arg_bool kws k = (case map_of kws k of Some (ABool b) \<Rightarrow> Some b | _ \<Rightarrow> None)"

definition arg_enum_class :: "(string \<times> arg) list \<Rightarrow> string \<Rightarrow> enum_class option" where
  "arg_enum_class kws k = (case map_of kws k of Some (AEnumClass ec) \<Rightarrow> Some ec | _ \<Rightarrow> None)"

text \<open>The parameter \<^verbatim>\<open>name_spaces\<close> has the default \<^verbatim>\<open>None\<close>.\<close>

definition arg_name_spaces :: "(string \<times> arg) list \<Rightarrow> string \<Rightarrow> name_spaces" where
  "arg_name_spaces kws k = (case map_of kws k of Some (ANameSpaces n) \<Rightarrow> n | _ \<Rightarrow> None)"

text \<open>
  The three decoders that \<^verbatim>\<open>Link._get_kwargs\<close> calls, with the parameters of their
  \<^verbatim>\<open>def\<close> lines in helpers.py. An argument of a kind the body cannot use is reported as
  \<^verbatim>\<open>TypeError\<close> as well.
\<close>

definition call_subelement_text_kwarg :: "(string \<times> arg) list \<Rightarrow> error + pydict" where
  "call_subelement_text_kwarg kws =
     (if \<not> binds [''element'', ''ns'', ''node_name'', ''kwarg'', ''strict''] [''name_spaces''] kws
      then Inl TypeError
      else
        (case (arg_element kws ''element'', arg_str kws ''ns'', arg_str kws ''node_name'',
               arg_str kws ''kwarg'', arg_bool kws ''strict'') of
           (Some e, Some ns, Some n, Some k, Some strict) \<Rightarrow>
             subelement_text_kwarg e ns (arg_name_spaces kws ''name_spaces'') n k strict
         | _ \<Rightarrow> Inl TypeError))"

definition call_subelement_float_kwarg :: "(string \<times> arg) list \<Rightarrow> error + pydict" where
  "call_subelement_float_kwarg kws =
     (if \<not> binds [''element'', ''ns'', ''node_name'', ''kwarg'', ''strict''] [''name_spaces''] kws
      then Inl TypeError
      else
        (case (arg_element kws ''element'', arg_str kws ''ns'', arg_str kws ''node_name'',
               arg_str kws ''kwarg'', arg_bool kws ''strict'') of
           (Some e, Some ns, Some n, Some k, Some strict) \<Rightarrow>
             subelement_float_kwarg e ns (arg_name_spaces kws ''name_spaces'') n k strict
         | _ \<Rightarrow> Inl TypeError))"

definition call_subelement_enum_kwarg :: "(string \<times> arg) list \<Rightarrow> error + pydict" where
  "call_subelement_enum_kwarg kws =
     (if \<not> binds [''element'', ''ns'', ''node_name'', ''kwarg'', ''enum_class'', ''strict'']
              [''name_spaces''] kws
      then Inl TypeError
      else
        (case (arg_element kws ''element'', arg_str kws ''ns'', arg_str kws ''node_name'',
               arg_str kws ''kwarg'', arg_enum_class kws ''enum_class'',
               arg_bool kws ''strict'') of
           (Some e, Some ns, Some n, Some k, Some ec, Some strict) \<Rightarrow>
             subelement_enum_kwarg e ns (arg_name_spaces kws ''name_spaces'') n k ec strict
         | _ \<Rightarrow> Inl TypeError))"

subsection \<open>Decoding a Link\<close>

text \<open>
  One statement \<^verbatim>\<open>kwargs.update(call)\<close>: an exception raised earlier, or by the call, ends
  the method.
\<close>

definition kwargs_update :: "error + pydict \<Rightarrow> error + pydict \<Rightarrow> error + pydict" where
  "kwargs_update kwargs call =
     (case kwargs of
        Inl e \<Rightarrow> Inl e
      | Inr d \<Rightarrow> (case call of Inl e \<Rightarrow> Inl e | Inr other \<Rightarrow> Inr (dict_update d other)))"

text \<open>
  \<^verbatim>\<open>Link._get_kwargs\<close>: \<^verbatim>\<open>kwargs = super()._get_kwargs(...)\<close>, then eight statements
  \<^verbatim>\<open>kwargs.update(...)\<close> with the calls written as in the source. The method of the base
  class and the two enum classes of \<^verbatim>\<open>fastkml.enums\<close> are parameters.
\<close>

definition Link_get_kwargs ::
  "(string \<Rightarrow> name_spaces \<Rightarrow> element \<Rightarrow> bool \<Rightarrow> error + pydict) \<Rightarrow> enum_class \<Rightarrow> enum_class
     \<Rightarrow> string \<Rightarrow> name_spaces \<Rightarrow> element \<Rightarrow> bool \<Rightarrow> error + pydict"
where
  "Link_get_kwargs super_get_kwargs RefreshMode ViewRefreshMode ns nsp element strict =
     foldl kwargs_update (super_get_kwargs ns nsp element strict)
       [call_subelement_text_kwarg
          [(''element'', AElement element), (''ns'', AStr ns), (''node_name'', AStr ''href''),
           (''kwarg'', AStr ''href''), (''strict'', ABool strict)],
        call_subelement_text_kwarg
          [(''element'', AElement element), (''ns'', AStr ns),
           (''node_name'', AStr ''viewFormat''), (''kwarg'', AStr ''view_format''),
           (''strict'', ABool strict)],
        call_subelement_text_kwarg
          [(''element'', AElement element), (''ns'', AStr ns),
           (''node_name'', AStr ''httpQuery''), (''kwarg'', AStr ''http_query''),
           (''strict'', ABool strict)],
        call_subelement_enum_kwarg
          [(''element'', AElement element), (''ns'', AStr ns), (''name_spaces'', ANameSpaces nsp),
           (''node_name'', AStr ''refreshMode''), (''kwarg'', AStr ''refresh_mode''),
           (''classes'', ATuple [AEnumClass RefreshMode]), (''strict'', ABool strict)],
        call_subelement_enum_kwarg
          [(''element'', AElement element), (''ns'', AStr ns), (''name_spaces'', ANameSpaces nsp),
           (''node_name'', AStr ''viewRefreshMode''), (''kwarg'', AStr ''view_refresh_mode''),
           (''classes'', ATuple [AEnumClass ViewRefreshMode]), (''strict'', ABool strict)],
        call_subelement_float_kwarg
          [(''element'', AElement element), (''ns'', AStr ns),
           (''node_name'', AStr ''refreshInterval''), (''kwarg'', AStr ''refresh_interval''),
           (''strict'', ABool strict)],
        call_subelement_float_kwarg
          [(''element'', AElement element), (''ns'', AStr ns),
           (''node_name'', AStr ''viewRefreshTime''), (''kwarg'', AStr ''view_refresh_time''),
           (''strict'', ABool strict)],
        call_subelement_float_kwarg
          [(''element'', AElement element), (''ns'', AStr ns),
           (''node_name'', AStr ''viewBoundScale''), (''kwarg'', AStr ''view_bound_scale''),
           (''strict'', ABool strict)]]"

subsection \<open>Encoding a Link\<close>

text \<open>One encoder call on the element built so far.\<close>

definition then_encode ::
  "error + element \<Rightarrow> (element \<Rightarrow> error + element) \<Rightarrow> error + element"
where
  "then_encode r f = (case r of Inl e \<Rightarrow> Inl e | Inr element \<Rightarrow> f element)"

text \<open>
  \<^verbatim>\<open>Link.etree_element\<close>: \<^verbatim>\<open>element = super().etree_element(...)\<close>, then three text, two
  enum and three float encoder calls. Every call names parameters of the encoder only;
  \<^verbatim>\<open>precision\<close> is passed to the float encoders and defaults to \<^verbatim>\<open>None\<close> elsewhere, and
  \<^verbatim>\<open>verbosity\<close> always defaults to \<^verbatim>\<open>None\<close>.
\<close>

definition Link_etree_element ::
  "(pyobj \<Rightarrow> int option \<Rightarrow> verbosity \<Rightarrow> error + element) \<Rightarrow> (pyval \<Rightarrow> string)
     \<Rightarrow> pyobj \<Rightarrow> int option \<Rightarrow> verbosity \<Rightarrow> error + element"
where
  "Link_etree_element super_etree_element py_str self precision verb =
     foldl then_encode (super_etree_element self precision verb)
       [\<lambda>element. text_subelement self element ''href'' (Some ''href'') None None,
        \<lambda>element. text_subelement self element ''view_format'' (Some ''viewFormat'') None None,
        \<lambda>element. text_subelement self element ''http_query'' (Some ''httpQuery'') None None,
        \<lambda>element. enum_subelement self element ''refresh_mode'' (Some ''refreshMode'') None None,
        \<lambda>element. enum_subelement self element ''view_refresh_mode'' (Some ''viewRefreshMode'')
                     None None,
        \<lambda>element. float_subelement py_str self element ''view_refresh_time''
                     (Some ''viewRefreshTime'') precision None,
        \<lambda>element. float_subelement py_str self element ''refresh_interval''
                     (Some ''refreshInterval'') precision None,
        \<lambda>element. float_subelement py_str self element ''view_bound_scale''
                     (Some ''viewBoundScale'') precision None]"

section \<open>Example classes and descriptors\<close>

text \<open>
  The classes of links.py with their bases: \<^verbatim>\<open>Icon(Link)\<close>, \<^verbatim>\<open>Link(_BaseObject)\<close>, and
  \<^verbatim>\<open>_BaseObject(_XMLObject)\<close> of \<^verbatim>\<open>fastkml.base\<close>; any other class derives from \<^verbatim>\<open>object\<close>.
\<close>

definition kml_mro :: "cls \<Rightarrow> cls list" where
  "kml_mro c =
     (if c = ''Icon'' then [''Icon'', ''Link'', ''_BaseObject'', ''_XMLObject'', ''object'']
      else if c = ''Link'' then [''Link'', ''_BaseObject'', ''_XMLObject'', ''object'']
      else if c = ''_BaseObject'' then [''_BaseObject'', ''_XMLObject'', ''object'']
      else if c = ''_XMLObject'' then [''_XMLObject'', ''object'']
      else [c, ''object''])"

text \<open>
  A decode function with the parameters of the protocol \<^verbatim>\<open>GetKWArgs\<close> that calls the text
  decoder:
  \<^verbatim>\<open>
  def text_get_kwarg(*, element, ns, name_spaces, node_name, attr_name, classes, strict):
      return subelement_text_kwarg(element=element, ns=ns, name_spaces=name_spaces,
                                   node_name=node_name, kwarg=attr_name, strict=strict)
  \<close>
  and a text descriptor \<^verbatim>\<open>RegistryItem((str,), attr, text_get_kwarg, text_subelement, node)\<close>.
\<close>

definition text_get_kwarg ::
  "element \<Rightarrow> string \<Rightarrow> name_spaces \<Rightarrow> string option \<Rightarrow> string \<Rightarrow> known_type list \<Rightarrow> bool
     \<Rightarrow> error + pydict"
where
  "text_get_kwarg element ns nsp node attr types strict =
     subelement_text_kwarg element ns nsp (format_opt node) attr strict"

definition text_item :: "string \<Rightarrow> string \<Rightarrow> registry_item" where
  "text_item attr node =
     \<lparr>classes = [StrType], attr_name = attr, get_kwarg = text_get_kwarg,
      set_element = text_subelement, node_name = Some node\<rparr>"

text \<open>
  A participating class whose \<^verbatim>\<open>class_from_element\<close> builds an instance that keeps the text
  of the node in the attribute \<^verbatim>\<open>name\<close>.
\<close>

definition named_class :: "cls \<Rightarrow> string \<Rightarrow> xml_class" where
  "named_class c t =
     \<lparr>class_name = c, get_tag_name = t,
      class_from_element =
        (\<lambda>ns nsp element strict.
           Inr (PyObj c ns [(''name'', VStr (case text_of element of Some x \<Rightarrow> x | None \<Rightarrow> []))]))\<rparr>"

section \<open>Properties of the registry\<close>

subsection \<open>The store\<close>

lemma registry_get_default_eq:
  "registry_get_default s c =
     ((case registry s c of Some a \<Rightarrow> a | None \<Rightarrow> next_addr s),
      s\<lparr>heap := (heap s)(next_addr s \<mapsto> []), next_addr := Suc (next_addr s)\<rparr>)"
  by (simp add: registry_get_default_def new_list_def split: option.splits)

lemma wf_init: "wf_state Registry_init"
  by (simp add: wf_state_def Registry_init_def)

lemma stored_list_init: "stored_list Registry_init c = []"
  by (simp add: stored_list_def stored_def Registry_init_def)

lemma register_wf: "wf_state s \<Longrightarrow> wf_state (register s c item)"
  unfolding wf_state_def register_def registry_get_default_eq list_append_def
  by (auto simp: Let_def split: option.splits) (metis less_Suc_eq)+

lemma register_registry:
  "registry (register s c item) =
     (registry s)(c \<mapsto> (case registry s c of Some a \<Rightarrow> a | None \<Rightarrow> next_addr s))"
  by (simp add: register_def registry_get_default_eq list_append_def Let_def)

lemma register_stored_list:
  assumes "wf_state s"
  shows "stored_list (register s c item) c' =
           (if c' = c then stored_list s c @ [item] else stored_list s c')"
proof (cases "registry s c")
  case None
  have "\<And>a. registry s c' = Some a \<Longrightarrow> a \<noteq> next_addr s"
    using assms by (auto simp: wf_state_def)
  with None show ?thesis
    by (auto simp: register_def registry_get_default_eq list_append_def Let_def
        stored_list_def stored_def deref_def split: option.splits)
next
  case (Some a)
  have lt: "a < next_addr s" using assms Some by (auto simp: wf_state_def)
  have neq: "\<And>a'. c' \<noteq> c \<Longrightarrow> registry s c' = Some a' \<Longrightarrow> a' \<noteq> a"
    using assms Some by (auto simp: wf_state_def)
  have lt': "\<And>a'. registry s c' = Some a' \<Longrightarrow> a' \<noteq> next_addr s"
    using assms by (auto simp: wf_state_def)
  from Some lt neq lt' show ?thesis
    by (auto simp: register_def registry_get_default_eq list_append_def Let_def
        stored_list_def stored_def deref_def split: option.splits)
qed

lemma get_loop_props:
  assumes "items < next_addr s"
    and "\<forall>c a. registry s c = Some a \<longrightarrow> a < next_addr s \<and> a \<noteq> items"
  shows "registry (get_loop items ps s) = registry s
       \<and> next_addr s \<le> next_addr (get_loop items ps s)
       \<and> (\<forall>a. a < next_addr s \<and> a \<noteq> items \<longrightarrow> heap (get_loop items ps s) a = heap s a)
       \<and> deref (get_loop items ps s) items = deref s items @ concat (map (stored_list s) ps)"
  using assms
proof (induction ps arbitrary: s)
  case Nil
  then show ?case by simp
next
  case (Cons p ps)
  define a where "a = (case registry s p of Some a \<Rightarrow> a | None \<Rightarrow> next_addr s)"
  define s1 where "s1 = s\<lparr>heap := (heap s)(next_addr s \<mapsto> []), next_addr := Suc (next_addr s)\<rparr>"
  define s2 where "s2 = list_extend s1 items a"
  have step: "get_loop items (p # ps) s = get_loop items ps s2"
    by (simp add: registry_get_default_eq a_def s1_def s2_def)
  have reg2: "registry s2 = registry s" and next2: "next_addr s2 = Suc (next_addr s)"
    by (simp_all add: s2_def s1_def list_extend_def)
  have a_ne: "a \<noteq> items"
    using Cons.prems by (auto simp: a_def split: option.splits)
  have da: "deref s1 a = stored_list s p"
    using Cons.prems(2)
    by (auto simp: a_def s1_def deref_def stored_list_def stored_def split: option.splits)
  have di: "deref s1 items = deref s items"
    using Cons.prems(1) by (simp add: s1_def deref_def)
  have d2: "deref s2 items = deref s items @ stored_list s p"
    by (simp add: s2_def list_extend_def deref_def[of "_\<lparr>heap := _\<rparr>"] da di)
  have heap2: "\<And>b. b < next_addr s \<Longrightarrow> b \<noteq> items \<Longrightarrow> heap s2 b = heap s b"
    by (simp add: s2_def s1_def list_extend_def)
  have sl2: "\<And>c. stored_list s2 c = stored_list s c"
    using Cons.prems(2) heap2
    by (auto simp: stored_list_def stored_def reg2 deref_def split: option.splits)
  have p1: "items < next_addr s2" using Cons.prems(1) next2 by simp
  have p2: "\<forall>c a. registry s2 c = Some a \<longrightarrow> a < next_addr s2 \<and> a \<noteq> items"
    using Cons.prems(2) reg2 next2 by (simp add: less_Suc_eq)
  note IH = Cons.IH[OF p1 p2]
  have c1: "registry (get_loop items ps s2) = registry s" using IH reg2 by simp
  have c2: "next_addr s \<le> next_addr (get_loop items ps s2)" using IH next2 by simp
  have c3: "\<forall>a. a < next_addr s \<and> a \<noteq> items \<longrightarrow> heap (get_loop items ps s2) a = heap s a"
    using IH next2 heap2 by (simp add: less_Suc_eq)
  have c4: "deref (get_loop items ps s2) items
             = deref s items @ concat (map (stored_list s) (p # ps))"
    using IH d2 sl2 by simp
  show ?case
    unfolding step using c1 c2 c3 c4 by blast
qed

lemma get_props:
  assumes "wf_state s"
  shows "fst (get mro s c) = next_addr s"
    and "registry (snd (get mro s c)) = registry s"
    and "next_addr s < next_addr (snd (get mro s c))"
    and "\<And>a. a < next_addr s \<Longrightarrow> heap (snd (get mro s c)) a = heap s a"
    and "deref (snd (get mro s c)) (fst (get mro s c)) =
           concat (map (stored_list s) (rev (butlast (mro c))))"
proof -
  define s1 where "s1 = s\<lparr>heap := (heap s)(next_addr s \<mapsto> []), next_addr := Suc (next_addr s)\<rparr>"
  define ps where "ps = rev (butlast (mro c))"
  have g: "get mro s c = (next_addr s, get_loop (next_addr s) ps s1)"
    by (simp add: get_def new_list_def s1_def ps_def Let_def)
  have p1: "next_addr s < next_addr s1" by (simp add: s1_def)
  have p2: "\<forall>c a. registry s1 c = Some a \<longrightarrow> a < next_addr s1 \<and> a \<noteq> next_addr s"
    using assms by (auto simp: s1_def wf_state_def less_Suc_eq)
  note L = get_loop_props[OF p1 p2, where ps = ps]
  have sl1: "\<And>c. stored_list s1 c = stored_list s c"
    using assms
    by (auto simp: stored_list_def stored_def s1_def deref_def wf_state_def split: option.splits)
  have r1: "registry s1 = registry s" and n1: "next_addr s1 = Suc (next_addr s)"
    and d1: "deref s1 (next_addr s) = []"
    and h1: "\<And>a. a < next_addr s \<Longrightarrow> heap s1 a = heap s a"
    by (simp_all add: s1_def deref_def)
  show "fst (get mro s c) = next_addr s" by (simp add: g)
  show "registry (snd (get mro s c)) = registry s" using L r1 by (simp add: g)
  show "next_addr s < next_addr (snd (get mro s c))" using L n1 by (simp add: g)
  show "\<And>a. a < next_addr s \<Longrightarrow> heap (snd (get mro s c)) a = heap s a"
    using L n1 h1 by (simp add: g)
  show "deref (snd (get mro s c)) (fst (get mro s c)) =
           concat (map (stored_list s) (rev (butlast (mro c))))"
  proof -
    have "stored_list s1 = stored_list s" by (rule ext) (rule sl1)
    then show ?thesis using L d1 by (simp add: g ps_def)
  qed
qed

lemma get_wf: "wf_state s \<Longrightarrow> wf_state (snd (get mro s c))"
proof -
  assume wf: "wf_state s"
  have "\<And>c' a. registry s c' = Some a \<Longrightarrow> a < next_addr (snd (get mro s c))"
    using wf get_props(3)[OF wf, of mro c] by (auto simp: wf_state_def intro: less_trans)
  then show ?thesis
    using wf unfolding wf_state_def get_props(2)[OF wf] by blast
qed

lemma get_stored:
  assumes "wf_state s"
  shows "stored (snd (get mro s c)) = stored s"
proof (rule ext)
  fix x
  show "stored (snd (get mro s c)) x = stored s x"
  proof (cases "registry s x")
    case None
    then show ?thesis by (simp add: stored_def get_props(2)[OF assms])
  next
    case (Some a)
    then have "a < next_addr s" using assms by (auto simp: wf_state_def)
    then have "heap (snd (get mro s c)) a = heap s a" by (rule get_props(4)[OF assms])
    then show ?thesis using Some by (simp add: stored_def get_props(2)[OF assms] deref_def)
  qed
qed

lemma get_stored_list: "wf_state s \<Longrightarrow> stored_list (snd (get mro s c)) c' = stored_list s c'"
  by (simp add: stored_list_def get_stored)

lemma run_calls_props:
  "wf_state s \<Longrightarrow>
     wf_state (run_calls mro calls s) \<and>
     (\<forall>c. stored_list (run_calls mro calls s) c = stored_list s c @ registered (registrations calls) c)"
proof (induction calls arbitrary: s)
  case Nil
  then show ?case by (simp add: run_calls_def registered_def)
next
  case (Cons call calls)
  show ?case
  proof (cases call)
    case (Register c item)
    have wf': "wf_state (register s c item)" using Cons.prems by (rule register_wf)
    from Cons.IH[OF wf'] show ?thesis
      using Register Cons.prems
      by (auto simp: run_calls_def register_stored_list registered_def)
  next
    case (Get c)
    have wf': "wf_state (snd (get mro s c))" using Cons.prems by (rule get_wf)
    from Cons.IH[OF wf'] show ?thesis
      using Get Cons.prems
      by (auto simp: run_calls_def get_stored_list)
  qed
qed

lemma run_calls_init_wf: "wf_state (run_calls mro calls Registry_init)"
  using run_calls_props[OF wf_init] by blast

lemma run_calls_init_stored_list:
  "stored_list (run_calls mro calls Registry_init) c = registered (registrations calls) c"
  using run_calls_props[OF wf_init, of mro calls] by (simp add: stored_list_init)

lemma get_after_calls:
  "deref (snd (get mro (run_calls mro calls Registry_init) c))
         (fst (get mro (run_calls mro calls Registry_init) c))
     = resolved mro (registrations calls) c"
  by (simp add: get_props(5)[OF run_calls_init_wf] run_calls_init_stored_list resolved_def
      cong: map_cong)

lemma list_assign_props:
  assumes "wf_state s" and "\<forall>c a'. registry s c = Some a' \<longrightarrow> a' \<noteq> a"
  shows "wf_state (list_assign s a xs)" and "stored (list_assign s a xs) = stored s"
proof -
  show "wf_state (list_assign s a xs)"
    using assms(1) by (simp add: wf_state_def list_assign_def)
  show "stored (list_assign s a xs) = stored s"
  proof (rule ext)
    fix x
    show "stored (list_assign s a xs) x = stored s x"
      using assms(2) by (cases "registry s x") (auto simp: stored_def list_assign_def deref_def)
  qed
qed

lemma get_result_from_stored:
  assumes "wf_state s" and "wf_state s'" and "stored s' = stored s"
  shows "deref (snd (get mro s' c)) (fst (get mro s' c)) = deref (snd (get mro s c)) (fst (get mro s c))"
proof -
  have "stored_list s' = stored_list s"
    by (rule ext) (simp add: stored_list_def assms(3))
  then show ?thesis
    by (simp add: get_props(5)[OF assms(1)] get_props(5)[OF assms(2)])
qed

lemma get_kwargs_fst:
  "fst (get_kwargs mro s c element ns nsp strict) =
     get_kwargs_loop (deref (snd (get mro s c)) (fst (get mro s c))) element ns nsp strict []"
  by (simp add: get_kwargs_def split_def)

lemma get_kwargs_snd: "snd (get_kwargs mro s c element ns nsp strict) = snd (get mro s c)"
  by (simp add: get_kwargs_def split_def)

lemma sub_element_fst:
  "fst (sub_element mro s obj element precision verb) =
     sub_element_loop (deref (snd (get mro s (type_name obj))) (fst (get mro s (type_name obj))))
       obj element precision verb"
  by (simp add: sub_element_def split_def)

lemma sub_element_snd:
  "snd (sub_element mro s obj element precision verb) = snd (get mro s (type_name obj))"
  by (simp add: sub_element_def split_def)

subsection \<open>Resolution order\<close>

text \<open>
  Claim C3. After any history of \<^verbatim>\<open>register\<close> and \<^verbatim>\<open>get\<close> calls on a new registry,
  \<^verbatim>\<open>Registry.get\<close> of a class returns the concatenation of the directly registered lists of
  the classes of \<^verbatim>\<open>cls.__mro__[:-1]\<close> taken in reverse, that is from the most general
  ancestor down to the class itself; the list registered directly on a class holds its
  items in the order of the \<^verbatim>\<open>register\<close> calls, and one more \<^verbatim>\<open>register\<close> call for the
  class appends its item to that list.
\<close>

theorem get_is_ancestor_order_concatenation:
  "deref (snd (get mro (run_calls mro calls Registry_init) c))
         (fst (get mro (run_calls mro calls Registry_init) c))
     = concat (map (registered (registrations calls)) (rev (butlast (mro c))))
   \<and> stored_list (run_calls mro calls Registry_init) c = registered (registrations calls) c
   \<and> registered (registrations (calls @ [Register c item])) c
       = registered (registrations calls) c @ [item]"
proof -
  have "registrations (calls @ [Register c item]) = registrations calls @ [(c, item)]"
    by (induction calls rule: registrations.induct) simp_all
  then show ?thesis
    using get_after_calls[of mro calls c]
    by (simp add: resolved_def run_calls_init_stored_list registered_def)
qed

subsection \<open>Runs with queries and changes to returned lists\<close>

lemma register_next_addr: "next_addr (register s c item) = Suc (next_addr s)"
  by (simp add: register_def registry_get_default_eq list_append_def Let_def)

lemma register_ran:
  assumes "a \<in> ran (registry (register s c item))"
  shows "a \<in> ran (registry s) \<or> a = next_addr s"
  using assms
  by (auto simp: register_registry ran_def split: option.splits if_splits)

lemma register_heap_above:
  assumes "wf_state s" and "\<forall>a. next_addr s \<le> a \<longrightarrow> heap s a = None"
    and "Suc (next_addr s) \<le> a"
  shows "heap (register s c item) a = None"
proof -
  have "\<And>b. registry s c = Some b \<Longrightarrow> b < next_addr s"
    using assms(1) by (auto simp: wf_state_def)
  then show ?thesis
    using assms(2,3)
    by (auto simp: register_def registry_get_default_eq list_append_def Let_def
        split: option.splits)
qed

lemma get_loop_heap_above:
  assumes "items < next_addr s" and "\<forall>a. next_addr s \<le> a \<longrightarrow> heap s a = None"
  shows "\<forall>a. next_addr (get_loop items ps s) \<le> a \<longrightarrow> heap (get_loop items ps s) a = None"
  using assms
proof (induction ps arbitrary: s)
  case Nil
  then show ?case by simp
next
  case (Cons p ps)
  define a where "a = (case registry s p of Some a \<Rightarrow> a | None \<Rightarrow> next_addr s)"
  define s2 where "s2 = list_extend
      (s\<lparr>heap := (heap s)(next_addr s \<mapsto> []), next_addr := Suc (next_addr s)\<rparr>) items a"
  have step: "get_loop items (p # ps) s = get_loop items ps s2"
    by (simp add: registry_get_default_eq a_def s2_def)
  have p1: "items < next_addr s2" using Cons.prems(1) by (simp add: s2_def list_extend_def)
  have p2: "\<forall>b. next_addr s2 \<le> b \<longrightarrow> heap s2 b = None"
    using Cons.prems by (auto simp: s2_def list_extend_def)
  show ?case unfolding step by (rule Cons.IH[OF p1 p2])
qed

lemma get_heap_above:
  assumes "\<forall>a. next_addr s \<le> a \<longrightarrow> heap s a = None"
  shows "\<forall>a. next_addr (snd (get mro s c)) \<le> a \<longrightarrow> heap (snd (get mro s c)) a = None"
proof -
  define s1 where "s1 = s\<lparr>heap := (heap s)(next_addr s \<mapsto> []), next_addr := Suc (next_addr s)\<rparr>"
  have g: "snd (get mro s c) = get_loop (next_addr s) (rev (butlast (mro c))) s1"
    by (simp add: get_def new_list_def s1_def Let_def)
  have p1: "next_addr s < next_addr s1" by (simp add: s1_def)
  have p2: "\<forall>b. next_addr s1 \<le> b \<longrightarrow> heap s1 b = None"
    using assms by (auto simp: s1_def)
  show ?thesis unfolding g by (rule get_loop_heap_above[OF p1 p2])
qed

lemma wf_run_init: "wf_run (Registry_init, [])"
  by (simp add: wf_run_def wf_init) (simp add: Registry_init_def)

lemma wf_run_register:
  assumes "wf_run (s, held)"
  shows "wf_run (register s c item, held)"
proof -
  have wf: "wf_state s" and above: "\<forall>a. next_addr s \<le> a \<longrightarrow> heap s a = None"
    and held: "\<forall>a \<in> set held. a < next_addr s \<and> a \<notin> ran (registry s)"
    using assms by (simp_all add: wf_run_def)
  have "\<forall>a \<in> set held. a < next_addr (register s c item) \<and> a \<notin> ran (registry (register s c item))"
  proof
    fix a assume a: "a \<in> set held"
    then have lt: "a < next_addr s" and nr: "a \<notin> ran (registry s)" using held by auto
    have "a \<notin> ran (registry (register s c item))"
      using register_ran[of a s c item] lt nr by auto
    then show "a < next_addr (register s c item) \<and> a \<notin> ran (registry (register s c item))"
      using lt by (simp add: register_next_addr)
  qed
  moreover have "\<forall>a. next_addr (register s c item) \<le> a \<longrightarrow> heap (register s c item) a = None"
    using register_heap_above[OF wf above] by (simp add: register_next_addr)
  ultimately show ?thesis
    using register_wf[OF wf] by (simp add: wf_run_def)
qed

lemma wf_run_get_state:
  assumes "wf_run (s, held)"
  shows "wf_run (snd (get mro s c), held)" and "wf_run (snd (get mro s c), held @ [fst (get mro s c)])"
proof -
  have wf: "wf_state s" and above: "\<forall>a. next_addr s \<le> a \<longrightarrow> heap s a = None"
    and held: "\<forall>a \<in> set held. a < next_addr s \<and> a \<notin> ran (registry s)"
    using assms by (simp_all add: wf_run_def)
  note gp = get_props[OF wf, where mro = mro and c = c]
  have nr: "next_addr s \<notin> ran (registry s)"
    using wf by (auto simp: wf_state_def ran_def)
  have h1: "\<forall>a \<in> set held. a < next_addr (snd (get mro s c)) \<and> a \<notin> ran (registry (snd (get mro s c)))"
    using held gp(2,3) by (auto intro: less_trans)
  have h2: "fst (get mro s c) < next_addr (snd (get mro s c))
            \<and> fst (get mro s c) \<notin> ran (registry (snd (get mro s c)))"
    using gp(1,2,3) nr by simp
  show "wf_run (snd (get mro s c), held)"
    using get_wf[OF wf] get_heap_above[OF above] h1 by (simp add: wf_run_def)
  show "wf_run (snd (get mro s c), held @ [fst (get mro s c)])"
    using get_wf[OF wf] get_heap_above[OF above] h1 h2 by (simp add: wf_run_def)
qed

lemma wf_run_change:
  assumes "wf_run (s, held)" and "k < length held"
  shows "wf_run (list_assign s (held ! k) xs, held)"
    and "stored (list_assign s (held ! k) xs) = stored s"
proof -
  have wf: "wf_state s" and above: "\<forall>a. next_addr s \<le> a \<longrightarrow> heap s a = None"
    and held: "\<forall>a \<in> set held. a < next_addr s \<and> a \<notin> ran (registry s)"
    using assms(1) by (simp_all add: wf_run_def)
  have k: "held ! k < next_addr s" "held ! k \<notin> ran (registry s)"
    using held assms(2) by auto
  have fresh: "\<forall>c a'. registry s c = Some a' \<longrightarrow> a' \<noteq> held ! k"
    using k(2) by (auto simp: ran_def)
  show "stored (list_assign s (held ! k) xs) = stored s"
    by (rule list_assign_props(2)[OF wf fresh])
  have "\<forall>a. next_addr s \<le> a \<longrightarrow> heap (list_assign s (held ! k) xs) a = None"
    using above k(1) by (auto simp: list_assign_def)
  then show "wf_run (list_assign s (held ! k) xs, held)"
    using list_assign_props(1)[OF wf fresh] held
    by (simp add: wf_run_def) (simp add: list_assign_def)
qed

lemma run_event_props:
  assumes "wf_run st"
  shows "wf_run (run_event mro ev st)"
    and "stored_list (fst (run_event mro ev st)) c
           = stored_list (fst st) c @ registered (event_registrations [ev]) c"
    and "(stored (fst (run_event mro ev st)) c = None)
           = (stored (fst st) c = None \<and> c \<notin> fst ` set (event_registrations [ev]))"
proof -
  obtain s held where st: "st = (s, held)" by (cases st)
  have wr: "wf_run (s, held)" using assms by (simp add: st)
  have wf: "wf_state s" using wr by (simp add: wf_run_def)
  have same: "\<And>s'. stored s' = stored s \<Longrightarrow> event_registrations [ev] = [] \<Longrightarrow>
      stored_list s' c = stored_list s c @ registered (event_registrations [ev]) c
      \<and> (stored s' c = None) = (stored s c = None \<and> c \<notin> fst ` set (event_registrations [ev]))"
    by (simp add: stored_list_def registered_def)
  have all: "wf_run (run_event mro ev st)
     \<and> stored_list (fst (run_event mro ev st)) c
           = stored_list (fst st) c @ registered (event_registrations [ev]) c
     \<and> (stored (fst (run_event mro ev st)) c = None)
           = (stored (fst st) c = None \<and> c \<notin> fst ` set (event_registrations [ev]))"
  proof (cases ev)
    case (Do_register c' item)
    have a: "wf_run (register s c' item, held)" by (rule wf_run_register[OF wr])
    have b: "stored_list (register s c' item) c
               = stored_list s c @ registered [(c', item)] c"
      by (simp add: register_stored_list[OF wf] registered_def)
    have c: "(stored (register s c' item) c = None) = (stored s c = None \<and> c \<noteq> c')"
      by (simp add: stored_def register_registry)
    show ?thesis using a b c by (simp add: st Do_register)
  next
    case (Do_get c')
    have a: "wf_run (snd (get mro s c'), held @ [fst (get mro s c')])"
      by (rule wf_run_get_state(2)[OF wr])
    show ?thesis
      using a same[OF get_stored[OF wf, of mro c']] by (simp add: st Do_get)
  next
    case (Do_get_kwargs c' element ns nsp strict)
    have a: "wf_run (snd (get mro s c'), held)" by (rule wf_run_get_state(1)[OF wr])
    show ?thesis
      using a same[OF get_stored[OF wf, of mro c']]
      by (simp add: st Do_get_kwargs get_kwargs_snd)
  next
    case (Do_sub_element obj element precision verb)
    have a: "wf_run (snd (get mro s (type_name obj)), held)" by (rule wf_run_get_state(1)[OF wr])
    show ?thesis
      using a same[OF get_stored[OF wf, of mro "type_name obj"]]
      by (simp add: st Do_sub_element sub_element_snd)
  next
    case (Change k xs)
    show ?thesis
    proof (cases "k < length held")
      case True
      show ?thesis
        using wf_run_change(1)[OF wr True, of xs] same[OF wf_run_change(2)[OF wr True, of xs]]
        by (simp add: st Change True)
    next
      case False
      then show ?thesis using wr same[of s] by (simp add: st Change)
    qed
  qed
  show "wf_run (run_event mro ev st)" using all by blast
  show "stored_list (fst (run_event mro ev st)) c
           = stored_list (fst st) c @ registered (event_registrations [ev]) c" using all by blast
  show "(stored (fst (run_event mro ev st)) c = None)
           = (stored (fst st) c = None \<and> c \<notin> fst ` set (event_registrations [ev]))"
    using all by blast
qed

lemma event_registrations_Cons:
  "event_registrations (ev # evs) = event_registrations [ev] @ event_registrations evs"
  by (cases ev) simp_all

lemma registered_append: "registered (xs @ ys) c = registered xs c @ registered ys c"
  by (simp add: registered_def)

lemma run_events_props:
  assumes "wf_run st"
  shows "wf_run (run_events mro evs st)
     \<and> (\<forall>c. stored_list (fst (run_events mro evs st)) c
              = stored_list (fst st) c @ registered (event_registrations evs) c)
     \<and> (\<forall>c. (stored (fst (run_events mro evs st)) c = None)
              = (stored (fst st) c = None \<and> c \<notin> fst ` set (event_registrations evs)))"
  using assms
proof (induction evs arbitrary: st)
  case Nil
  then show ?case by (simp add: run_events_def registered_def)
next
  case (Cons ev evs)
  note step = run_event_props[OF Cons.prems, of mro ev]
  note IH = Cons.IH[OF step(1)]
  have r: "run_events mro (ev # evs) st = run_events mro evs (run_event mro ev st)"
    by (simp add: run_events_def)
  have e: "event_registrations (ev # evs) = event_registrations [ev] @ event_registrations evs"
    by (rule event_registrations_Cons)
  show ?case
    unfolding r e using IH step(2,3)
    by (simp add: registered_append) blast
qed

lemma event_registrations_without_changes:
  "event_registrations (without_changes evs) = event_registrations evs"
proof (induction evs)
  case Nil
  then show ?case by (simp add: without_changes_def)
next
  case (Cons ev evs)
  then show ?case by (cases ev) (simp_all add: without_changes_def)
qed

lemma run_events_init:
  fixes mro evs
  defines "s \<equiv> fst (run_events mro evs (Registry_init, []))"
    and "held \<equiv> snd (run_events mro evs (Registry_init, []))"
    and "regs \<equiv> event_registrations evs"
  shows "wf_run (s, held)"
    and "stored_list s c = registered regs c"
    and "stored s c = (if c \<in> fst ` set regs then Some (registered regs c) else None)"
proof -
  note P = run_events_props[OF wf_run_init, of mro evs]
  show "wf_run (s, held)" using P by (simp add: s_def held_def)
  show sl: "stored_list s c = registered regs c"
    using P by (simp add: s_def regs_def stored_list_init)
  have none: "(stored s c = None) = (c \<notin> fst ` set regs)"
    using P by (simp add: s_def regs_def stored_def Registry_init_def)
  show "stored s c = (if c \<in> fst ` set regs then Some (registered regs c) else None)"
  proof (cases "stored s c")
    case None
    then show ?thesis using none by simp
  next
    case (Some xs)
    then have "xs = registered regs c" using sl by (simp add: stored_list_def)
    then show ?thesis using Some none by auto
  qed
qed

lemma get_from_stored_list:
  assumes "wf_state s" and "\<And>k. stored_list s k = registered regs k"
  shows "deref (snd (get mro s c)) (fst (get mro s c)) = resolved mro regs c"
proof -
  have "stored_list s = registered regs" by (rule ext) (rule assms(2))
  then show ?thesis by (simp add: get_props(5)[OF assms(1)] resolved_def)
qed

subsection \<open>Frame: queries do not change the registry\<close>

text \<open>
  Claim C10. Take any history of calls on a new registry: \<^verbatim>\<open>register\<close>, \<^verbatim>\<open>get\<close>,
  \<^verbatim>\<open>get_kwargs\<close> and \<^verbatim>\<open>sub_element\<close> calls, and changes that callers make, at any later
  time, to the contents of any list that an earlier \<^verbatim>\<open>get\<close> returned. Let \<open>s\<close> be the
  state it reaches, \<open>held\<close> the lists returned so far, and \<open>s0\<close> the state reached by the
  same history without the changes to returned lists. Then:
  \<^item> the dictionary has an entry exactly for the classes that were registered, and each
    entry holds exactly the items registered for the class, in call order: no query and
    no change to a returned list has added an entry or touched a registered list;
  \<^item> one more \<^verbatim>\<open>get\<close> or \<^verbatim>\<open>get_kwargs\<close> call leaves the dictionary and the contents of
    every registered list as they are, also for a class without registrations;
  \<^item> the list \<^verbatim>\<open>get\<close> returns is a new object: it is none of the lists returned before,
    none of the lists of the dictionary, and its address was not allocated before;
  \<^item> what \<^verbatim>\<open>get\<close> returns is determined by the register calls alone, and \<^verbatim>\<open>get\<close>,
    \<^verbatim>\<open>get_kwargs\<close> and \<^verbatim>\<open>sub_element\<close> return after the history what they return after
    the history without the changes.
  The decode and encode functions of the items are functions of their arguments: they
  do not reach the registry.
\<close>

theorem queries_and_later_changes_leave_registry_unchanged:
  "let st = run_events mro evs (Registry_init, []);
       s = fst st;
       held = snd st;
       regs = event_registrations evs;
       s0 = fst (run_events mro (without_changes evs) (Registry_init, []))
   in stored s c = (if c \<in> fst ` set regs then Some (registered regs c) else None)
    \<and> registry (snd (get mro s c)) = registry s
    \<and> stored (snd (get mro s c)) = stored s
    \<and> registry (snd (get_kwargs mro s c element ns nsp strict)) = registry s
    \<and> stored (snd (get_kwargs mro s c element ns nsp strict)) = stored s
    \<and> fst (get mro s c) \<notin> set held
    \<and> fst (get mro s c) \<notin> ran (registry s)
    \<and> heap s (fst (get mro s c)) = None
    \<and> deref (snd (get mro s c)) (fst (get mro s c)) = resolved mro regs c
    \<and> stored s = stored s0
    \<and> deref (snd (get mro s c)) (fst (get mro s c))
        = deref (snd (get mro s0 c)) (fst (get mro s0 c))
    \<and> fst (get_kwargs mro s c element ns nsp strict)
        = fst (get_kwargs mro s0 c element ns nsp strict)
    \<and> fst (sub_element mro s obj element precision verb)
        = fst (sub_element mro s0 obj element precision verb)"
proof -
  define s where "s = fst (run_events mro evs (Registry_init, []))"
  define held where "held = snd (run_events mro evs (Registry_init, []))"
  define regs where "regs = event_registrations evs"
  define s0 where "s0 = fst (run_events mro (without_changes evs) (Registry_init, []))"
  note P = run_events_init[of mro evs, folded s_def held_def regs_def]
  note P0 = run_events_init[of mro "without_changes evs", folded s0_def,
      unfolded event_registrations_without_changes, folded regs_def]
  have wf: "wf_state s" and above: "\<forall>a. next_addr s \<le> a \<longrightarrow> heap s a = None"
    and held: "\<forall>a \<in> set held. a < next_addr s \<and> a \<notin> ran (registry s)"
    using P(1) by (simp_all add: wf_run_def)
  have wf0: "wf_state s0" using P0(1) by (simp add: wf_run_def)
  have g: "fst (get mro s c) = next_addr s" by (rule get_props(1)[OF wf])
  have c1: "stored s c = (if c \<in> fst ` set regs then Some (registered regs c) else None)"
    by (rule P(3))
  have c2: "registry (snd (get mro s c)) = registry s" by (rule get_props(2)[OF wf])
  have c3: "stored (snd (get mro s c)) = stored s" by (rule get_stored[OF wf])
  have c6: "fst (get mro s c) \<notin> set held" using held by (auto simp: g)
  have c7: "fst (get mro s c) \<notin> ran (registry s)"
    using wf by (auto simp: g wf_state_def ran_def)
  have c8: "heap s (fst (get mro s c)) = None" using above by (simp add: g)
  have r: "\<And>k. deref (snd (get mro s k)) (fst (get mro s k)) = resolved mro regs k"
    by (rule get_from_stored_list[OF wf P(2)])
  have r0: "\<And>k. deref (snd (get mro s0 k)) (fst (get mro s0 k)) = resolved mro regs k"
    by (rule get_from_stored_list[OF wf0 P0(2)])
  have c10: "stored s = stored s0"
    by (rule ext) (simp add: P(3) P0(3))
  show ?thesis
    unfolding Let_def s_def[symmetric] held_def[symmetric] regs_def[symmetric] s0_def[symmetric]
    using c1 c2 c3 c6 c7 c8 c10
    by (simp add: get_kwargs_fst get_kwargs_snd sub_element_fst r r0)
qed

section \<open>Properties of decode and encode\<close>

lemma get_kwargs_after_calls:
  "fst (get_kwargs mro (run_calls mro calls Registry_init) c element ns nsp strict) =
     get_kwargs_loop (resolved mro (registrations calls) c) element ns nsp strict []"
  by (simp add: get_kwargs_fst get_after_calls)

lemma sub_element_after_calls:
  "fst (sub_element mro (run_calls mro calls Registry_init) obj element precision verb) =
     sub_element_loop (resolved mro (registrations calls) (type_name obj)) obj element precision verb"
  by (simp add: sub_element_fst get_after_calls)





subsection \<open>Decode: a later descriptor overrides an earlier one\<close>



lemmas text_codec_eval =
  text_item_def text_get_kwarg_def subelement_text_kwarg_def find_child_def has_text_def
  stripped_text_def strip_def is_space_def format_opt_def text_subelement_def
  getattr_default_def SubElement_with_text_def append_child_def

lemma resolved_example:
  "resolved kml_mro
     (registrations [Register ''Icon'' (text_item ''href'' ''iconHref''),
                     Register ''Link'' (text_item ''href'' ''href'')]) ''Icon''
   = [text_item ''href'' ''href'', text_item ''href'' ''iconHref'']"
  by (simp add: resolved_def registered_def kml_mro_def)


subsection \<open>Decode: what is stored under an attribute name\<close>

text \<open>
  Claim C1, evaluated on the code. \<^verbatim>\<open>Link\<close> has one text descriptor for \<^verbatim>\<open>href\<close>. For a
  node without the child the decode function returns the empty dictionary, and
  \<^verbatim>\<open>get_kwargs\<close> nevertheless returns a mapping with an entry for \<^verbatim>\<open>href\<close>, whose value is
  that empty dictionary. For a node with the child \<^verbatim>\<open>href\<close> of text \<^verbatim>\<open>x\<close> the decode
  function returns \<^verbatim>\<open>{"href": "x"}\<close>, and the value stored under \<^verbatim>\<open>href\<close> is this
  dictionary, not the decoded text \<^verbatim>\<open>x\<close>: the statement
  \<^verbatim>\<open>kwargs[item.attr_name] = item.get_kwarg(...)\<close> assigns the result where
  \<^verbatim>\<open>Link._get_kwargs\<close> merges it with \<^verbatim>\<open>kwargs.update(...)\<close>.
\<close>

theorem get_kwargs_stores_the_decode_result_itself:
  "get_kwarg (text_item ''href'' ''href'') (Element ''Link'' None [])
      '''' None (Some ''href'') ''href'' [StrType] False = Inr []
   \<and> fst (get_kwargs kml_mro
          (run_calls kml_mro [Register ''Link'' (text_item ''href'' ''href'')] Registry_init)
          ''Link'' (Element ''Link'' None []) '''' None False)
       = Inr [(''href'', VDict [])]
   \<and> get_kwarg (text_item ''href'' ''href'') (Element ''Link'' None [Element ''href'' (Some ''x'') []])
      '''' None (Some ''href'') ''href'' [StrType] False = Inr [(''href'', VStr ''x'')]
   \<and> fst (get_kwargs kml_mro
          (run_calls kml_mro [Register ''Link'' (text_item ''href'' ''href'')] Registry_init)
          ''Link'' (Element ''Link'' None [Element ''href'' (Some ''x'') []]) '''' None False)
       = Inr [(''href'', VDict [(''href'', VStr ''x'')])]"
proof -
  have r: "resolved kml_mro (registrations [Register ''Link'' (text_item ''href'' ''href'')]) ''Link''
            = [text_item ''href'' ''href'']"
    by (simp add: resolved_def registered_def kml_mro_def)
  show ?thesis
    unfolding get_kwargs_after_calls r by (simp add: text_codec_eval)
qed

lemma sub_element_loop_appends:
  assumes "\<forall>item \<in> set items. \<forall>e.
             set_element item obj e (attr_name item) (node_name item) precision verb
               = Inr (Element (tag e) (text_of e) (children e @ emit item))"
  shows "sub_element_loop items obj element precision verb
           = Inr (Element (tag element) (text_of element)
                    (children element @ concat (map emit items)))"
  using assms
proof (induction items arbitrary: element)
  case Nil
  then show ?case by simp
next
  case (Cons item items)
  from Cons.prems have first: "set_element item obj element (attr_name item) (node_name item) precision verb
      = Inr (Element (tag element) (text_of element) (children element @ emit item))"
    by simp
  from Cons.prems have rest: "\<forall>item \<in> set items. \<forall>e.
             set_element item obj e (attr_name item) (node_name item) precision verb
               = Inr (Element (tag e) (text_of e) (children e @ emit item))"
    by simp
  show ?case
    by (simp add: first Cons.IH[OF rest])
qed

subsection \<open>Encode: every descriptor fires once, in resolution order\<close>

text \<open>
  Claim C4. Let every encode function of the resolved sequence of the object's class
  append to the element it is given the child nodes \<open>emit item\<close> (none, one or several).
  Then \<^verbatim>\<open>sub_element\<close> returns the destination element with, appended to its children,
  the nodes of each descriptor exactly once: class by class from the most general
  ancestor to the object's own class, and within a class in the order of the register
  calls. Nothing is replaced: two descriptors for the same attribute name both emit.
\<close>

theorem sub_element_emits_in_resolution_order:
  assumes "\<forall>item \<in> set (resolved mro (registrations calls) (type_name obj)). \<forall>e.
             set_element item obj e (attr_name item) (node_name item) precision verb
               = Inr (Element (tag e) (text_of e) (children e @ emit item))"
  shows "fst (sub_element mro (run_calls mro calls Registry_init) obj element precision verb)
           = Inr (Element (tag element) (text_of element)
                    (children element @
                     concat (map (\<lambda>c. concat (map emit (registered (registrations calls) c)))
                               (rev (butlast (mro (type_name obj)))))))"
proof -
  have "\<And>cs. concat (map emit (concat (map (registered (registrations calls)) cs)))
        = concat (map (\<lambda>c. concat (map emit (registered (registrations calls) c))) cs)"
    subgoal for cs by (induction cs) simp_all
    done
  then have "concat (map emit (resolved mro (registrations calls) (type_name obj)))
        = concat (map (\<lambda>c. concat (map emit (registered (registrations calls) c)))
                               (rev (butlast (mro (type_name obj)))))"
    by (simp add: resolved_def)
  then show ?thesis
    unfolding sub_element_after_calls
    using sub_element_loop_appends[OF assms, of element] by simp
qed

text \<open>
  The case of a re-registered attribute: \<^verbatim>\<open>Icon\<close> registers a text descriptor for \<^verbatim>\<open>href\<close>
  (node name \<^verbatim>\<open>iconHref\<close>) before its base \<^verbatim>\<open>Link\<close> registers one (node name \<^verbatim>\<open>href\<close>).
  Encoding an \<^verbatim>\<open>Icon\<close> with \<^verbatim>\<open>href = "x"\<close> emits the node of the base first and then an
  additional node for the subtype's descriptor.
\<close>

theorem sub_element_emits_in_resolution_order_witness:
  "fst (sub_element kml_mro
          (run_calls kml_mro [Register ''Icon'' (text_item ''href'' ''iconHref''),
                              Register ''Link'' (text_item ''href'' ''href'')] Registry_init)
          (PyObj ''Icon'' '''' [(''href'', VStr ''x'')]) (Element ''Icon'' None []) None None)
     = Inr (Element ''Icon'' None
              [Element ''href'' (Some ''x'') [], Element ''iconHref'' (Some ''x'') []])"
proof -
  let ?calls = "[Register ''Icon'' (text_item ''href'' ''iconHref''),
                 Register ''Link'' (text_item ''href'' ''href'')]"
  let ?obj = "PyObj ''Icon'' '''' [(''href'', VStr ''x'')]"
  let ?emit = "\<lambda>item. [Element (format_opt (node_name item)) (Some ''x'') []]"
  have h: "\<forall>item \<in> set (resolved kml_mro (registrations ?calls) (type_name ?obj)). \<forall>e.
             set_element item ?obj e (attr_name item) (node_name item) None None
               = Inr (Element (tag e) (text_of e) (children e @ ?emit item))"
    unfolding pyobj.sel resolved_example by (simp add: text_codec_eval)
  show ?thesis
    using sub_element_emits_in_resolution_order[OF h, of "Element ''Icon'' None []"]
    by (simp add: registered_def kml_mro_def text_item_def format_opt_def)
qed

section \<open>Properties of Link and of the codecs\<close>

subsection \<open>Decoding a Link\<close>

lemma foldl_kwargs_update_Inl: "foldl kwargs_update (Inl e) calls = Inl e"
  by (induction calls) (simp_all add: kwargs_update_def)

lemma call_text_returns:
  "call_subelement_text_kwarg
     [(''element'', AElement element), (''ns'', AStr ns), (''node_name'', AStr n),
      (''kwarg'', AStr k), (''strict'', ABool strict)]
   = subelement_text_kwarg element ns None n k strict"
  by (simp add: call_subelement_text_kwarg_def binds_def arg_element_def arg_str_def
      arg_bool_def arg_name_spaces_def)

lemma text_kwarg_returns: "\<exists>d. subelement_text_kwarg element ns nsp n k strict = Inr d"
  by (simp add: subelement_text_kwarg_def split: option.splits)

lemma call_enum_with_classes_raises:
  "call_subelement_enum_kwarg
     [(''element'', AElement element), (''ns'', AStr ns), (''name_spaces'', ANameSpaces nsp),
      (''node_name'', AStr n), (''kwarg'', AStr k), (''classes'', ATuple [AEnumClass ec]),
      (''strict'', ABool strict)]
   = Inl TypeError"
  by (simp add: call_subelement_enum_kwarg_def binds_def)

text \<open>
  Claim C2, evaluated on the code. \<^verbatim>\<open>Link._get_kwargs\<close> calls \<^verbatim>\<open>subelement_enum_kwarg\<close> with
  the keyword \<^verbatim>\<open>classes\<close>, which is no parameter of that function, and without its
  required parameter \<^verbatim>\<open>enum_class\<close>. So for every namespace, element and strictness flag
  the method raises: the exception of the base class method if that one raises, and
  \<^verbatim>\<open>TypeError\<close> otherwise. It never returns a mapping, and no instance is reconstructed.
  For instance \<^verbatim>\<open>Link(href="http://example.com")\<close> is encoded (on the element the base
  class produced) as a node with one child \<^verbatim>\<open>href\<close>, and decoding that node raises
  \<^verbatim>\<open>TypeError\<close> in strict and in lenient mode.
\<close>

theorem Link_get_kwargs_always_raises:
  "Link_get_kwargs super_get_kwargs RefreshMode ViewRefreshMode ns nsp element strict
     = (case super_get_kwargs ns nsp element strict of
          Inl e \<Rightarrow> Inl e
        | Inr kwargs \<Rightarrow> Inl TypeError)
   \<and> Link_etree_element (\<lambda>self precision verb. Inr (Element ''Link'' None [])) py_str
        (PyObj ''Link'' '''' [(''href'', VStr ''http://example.com'')]) None None
     = Inr (Element ''Link'' None [Element ''href'' (Some ''http://example.com'') []])
   \<and> Link_get_kwargs (\<lambda>ns nsp element strict. Inr []) RefreshMode ViewRefreshMode '''' None
        (Element ''Link'' None [Element ''href'' (Some ''http://example.com'') []]) strict
     = Inl TypeError"
proof -
  have general: "\<And>sup ns nsp element strict.
     Link_get_kwargs sup RefreshMode ViewRefreshMode ns nsp element strict
     = (case sup ns nsp element strict of Inl e \<Rightarrow> Inl e | Inr kwargs \<Rightarrow> Inl TypeError)"
  proof -
    fix sup :: "string \<Rightarrow> name_spaces \<Rightarrow> element \<Rightarrow> bool \<Rightarrow> error + pydict"
      and ns nsp element strict
    show "Link_get_kwargs sup RefreshMode ViewRefreshMode ns nsp element strict
     = (case sup ns nsp element strict of Inl e \<Rightarrow> Inl e | Inr kwargs \<Rightarrow> Inl TypeError)"
    proof (cases "sup ns nsp element strict")
      case (Inl e)
      then show ?thesis by (simp add: Link_get_kwargs_def kwargs_update_def)
    next
      case (Inr d0)
      obtain d1 where d1: "subelement_text_kwarg element ns None ''href'' ''href'' strict = Inr d1"
        using text_kwarg_returns by blast
      obtain d2 where d2: "subelement_text_kwarg element ns None ''viewFormat'' ''view_format'' strict = Inr d2"
        using text_kwarg_returns by blast
      obtain d3 where d3: "subelement_text_kwarg element ns None ''httpQuery'' ''http_query'' strict = Inr d3"
        using text_kwarg_returns by blast
      show ?thesis
        unfolding Link_get_kwargs_def call_text_returns call_enum_with_classes_raises
        by (simp add: Inr d1 d2 d3 kwargs_update_def)
    qed
  qed
  have enc: "Link_etree_element (\<lambda>self precision verb. Inr (Element ''Link'' None [])) py_str
        (PyObj ''Link'' '''' [(''href'', VStr ''http://example.com'')]) None None
     = Inr (Element ''Link'' None [Element ''href'' (Some ''http://example.com'') []])"
    by (simp add: Link_etree_element_def then_encode_def text_subelement_def enum_subelement_def
        float_subelement_def getattr_default_def SubElement_with_text_def append_child_def
        format_opt_def)
  show ?thesis
    using general enc by simp
qed

subsection \<open>Malformed values: strict and lenient decode\<close>

lemma py_int_only_ValueError: "py_int s = Inl e \<Longrightarrow> e = ValueError"
  by (auto simp: py_int_def split: prod.splits option.splits if_splits)

lemma py_float_only_ValueError: "py_float s = Inl e \<Longrightarrow> e = ValueError"
  by (auto simp: py_float_def split: prod.splits option.splits if_splits)

text \<open>
  Claim C6. Let the named child be present with text that is not empty and not only white
  space. The integer decoder returns the entry with the parsed integer when the stripped
  text parses as an integer; when it does not, strict mode raises \<^verbatim>\<open>ValueError\<close> (the
  specification's MalformedValue) and lenient mode returns the empty result. The float
  decoder does the same with \<^verbatim>\<open>float\<close>. The enum decoder does not read the strictness
  flag: it returns the entry with the member whose value is the stripped text, and when
  no member has that value it raises \<^verbatim>\<open>ValueError\<close> in strict mode and in lenient mode
  alike.
\<close>

theorem malformed_text_strict_raises_lenient_omits:
  assumes "find_child element (ns @ node) = Some n" and "has_text n"
  shows "subelement_int_kwarg element ns nsp node kwarg strict
           = (case py_int (stripped_text n) of
                Inr v \<Rightarrow> Inr [(kwarg, VInt v)]
              | Inl e \<Rightarrow> if strict then Inl ValueError else Inr [])
       \<and> subelement_float_kwarg element ns nsp node kwarg strict
           = (case py_float (stripped_text n) of
                Inr f \<Rightarrow> Inr [(kwarg, VFloat f)]
              | Inl e \<Rightarrow> if strict then Inl ValueError else Inr [])
       \<and> subelement_enum_kwarg element ns nsp node kwarg ec strict
           = (case List.find (\<lambda>m. snd m = stripped_text n) (enum_members ec) of
                Some m \<Rightarrow> Inr [(kwarg, VEnum (EnumMember (enum_name ec) (fst m) (stripped_text n)))]
              | None \<Rightarrow> Inl ValueError)"
proof -
  have i: "subelement_int_kwarg element ns nsp node kwarg strict
           = (case py_int (stripped_text n) of
                Inr v \<Rightarrow> Inr [(kwarg, VInt v)]
              | Inl e \<Rightarrow> if strict then Inl ValueError else Inr [])"
    using assms py_int_only_ValueError[of "stripped_text n"]
    by (auto simp: subelement_int_kwarg_def split: sum.splits)
  have f: "subelement_float_kwarg element ns nsp node kwarg strict
           = (case py_float (stripped_text n) of
                Inr f \<Rightarrow> Inr [(kwarg, VFloat f)]
              | Inl e \<Rightarrow> if strict then Inl ValueError else Inr [])"
    using assms py_float_only_ValueError[of "stripped_text n"]
    by (auto simp: subelement_float_kwarg_def split: sum.splits)
  have e: "subelement_enum_kwarg element ns nsp node kwarg ec strict
           = (case List.find (\<lambda>m. snd m = stripped_text n) (enum_members ec) of
                Some m \<Rightarrow> Inr [(kwarg, VEnum (EnumMember (enum_name ec) (fst m) (stripped_text n)))]
              | None \<Rightarrow> Inl ValueError)"
    using assms
    by (simp add: subelement_enum_kwarg_def enum_call_def split: option.splits)
  show ?thesis using i f e by simp
qed

lemmas number_eval =
  py_int_def py_float_def strip_num_def is_num_space_def take_sign_def lower_def lower_char_def
  take_number_def take_digitpart_def is_digit_def take_exponent_def int_of_digits_def
  digit_val_def pow10_def char_of_def bit_Suc_0_iff

lemmas node_eval =
  find_child_def has_text_def stripped_text_def strip_def is_space_def

text \<open>
  A child with the text \<^verbatim>\<open>" abc "\<close>: not an integer, not a float, and not a value of the
  enumeration.
\<close>

theorem malformed_text_strict_raises_lenient_omits_witness:
  "subelement_int_kwarg (Element ''Link'' None [Element ''refreshInterval'' (Some '' abc '') []])
       '''' None ''refreshInterval'' ''refresh_interval'' True = Inl ValueError
   \<and> subelement_int_kwarg (Element ''Link'' None [Element ''refreshInterval'' (Some '' abc '') []])
       '''' None ''refreshInterval'' ''refresh_interval'' False = Inr []
   \<and> subelement_float_kwarg (Element ''Link'' None [Element ''refreshInterval'' (Some '' abc '') []])
       '''' None ''refreshInterval'' ''refresh_interval'' True = Inl ValueError
   \<and> subelement_float_kwarg (Element ''Link'' None [Element ''refreshInterval'' (Some '' abc '') []])
       '''' None ''refreshInterval'' ''refresh_interval'' False = Inr []
   \<and> subelement_enum_kwarg (Element ''Link'' None [Element ''refreshInterval'' (Some '' abc '') []])
       '''' None ''refreshInterval'' ''refresh_interval''
       (EnumClass ''RefreshMode'' [(''on_change'', ''onChange''), (''on_interval'', ''onInterval'')])
       True = Inl ValueError
   \<and> subelement_enum_kwarg (Element ''Link'' None [Element ''refreshInterval'' (Some '' abc '') []])
       '''' None ''refreshInterval'' ''refresh_interval''
       (EnumClass ''RefreshMode'' [(''on_change'', ''onChange''), (''on_interval'', ''onInterval'')])
       False = Inl ValueError"
proof -
  let ?n = "Element ''refreshInterval'' (Some '' abc '') []"
  let ?e = "Element ''Link'' None [?n]"
  have h1: "find_child ?e ('''' @ ''refreshInterval'') = Some ?n" by (simp add: find_child_def)
  have h2: "has_text ?n" by (simp add: node_eval)
  have t: "stripped_text ?n = ''abc''" by (simp add: node_eval)
  have pi: "py_int ''abc'' = Inl ValueError" by (simp add: number_eval)
  have pf: "py_float ''abc'' = Inl ValueError" by (simp add: number_eval)
  show ?thesis
    using malformed_text_strict_raises_lenient_omits[OF h1 h2, where nsp = None
            and kwarg = "''refresh_interval''" and strict = True
            and ec = "EnumClass ''RefreshMode'' [(''on_change'', ''onChange''), (''on_interval'', ''onInterval'')]"]
      malformed_text_strict_raises_lenient_omits[OF h1 h2, where nsp = None
            and kwarg = "''refresh_interval''" and strict = False
            and ec = "EnumClass ''RefreshMode'' [(''on_change'', ''onChange''), (''on_interval'', ''onInterval'')]"]
    by (simp add: t pi pf)
qed

subsection \<open>Boolean decode\<close>

text \<open>
  Claim C7, evaluated on the code. In lenient mode the text \<^verbatim>\<open>inf\<close> (or \<^verbatim>\<open>-Infinity\<close>) is
  none of \<^verbatim>\<open>1\<close>, \<^verbatim>\<open>true\<close>, \<^verbatim>\<open>0\<close>, \<^verbatim>\<open>false\<close>, so the float-then-integer coercion is
  attempted: \<^verbatim>\<open>float("inf")\<close> is the infinity, and \<^verbatim>\<open>int\<close> of it raises
  \<^verbatim>\<open>OverflowError\<close>. The handler catches \<^verbatim>\<open>ValueError\<close> only, so the decoder raises instead
  of omitting the attribute.
\<close>

theorem lenient_bool_decode_raises_on_infinite_float:
  "py_float ''inf'' = Inr PosInf
   \<and> int_of_float PosInf = Inl OverflowError
   \<and> subelement_bool_kwarg
        (Element ''Placemark'' None [Element ''visibility'' (Some ''inf'') []])
        '''' None ''visibility'' ''visibility'' False = Inl OverflowError
   \<and> subelement_bool_kwarg
        (Element ''Placemark'' None [Element ''visibility'' (Some ''-Infinity'') []])
        '''' None ''visibility'' ''visibility'' False = Inl OverflowError"
  by (simp add: subelement_bool_kwarg_def node_eval number_eval)

text \<open>
  The five scenarios of the claim hold on the code: lenient decode of \<^verbatim>\<open>TRUE\<close>, \<^verbatim>\<open>0\<close>,
  \<^verbatim>\<open>2.0\<close> and \<^verbatim>\<open>maybe\<close>, and strict decode of \<^verbatim>\<open>maybe\<close>.
\<close>

lemma bool_decode_scenarios:
  "subelement_bool_kwarg (Element ''Placemark'' None [Element ''visibility'' (Some ''TRUE'') []])
        '''' None ''visibility'' ''visibility'' False = Inr [(''visibility'', VBool True)]"
  "subelement_bool_kwarg (Element ''Placemark'' None [Element ''visibility'' (Some ''0'') []])
        '''' None ''visibility'' ''visibility'' False = Inr [(''visibility'', VBool False)]"
  "subelement_bool_kwarg (Element ''Placemark'' None [Element ''visibility'' (Some ''2.0'') []])
        '''' None ''visibility'' ''visibility'' False = Inr [(''visibility'', VBool True)]"
  "subelement_bool_kwarg (Element ''Placemark'' None [Element ''visibility'' (Some ''maybe'') []])
        '''' None ''visibility'' ''visibility'' False = Inr []"
  "subelement_bool_kwarg (Element ''Placemark'' None [Element ''visibility'' (Some ''maybe'') []])
        '''' None ''visibility'' ''visibility'' True = Inl ValueError"
proof -
  have r: "round_binary64 2 = Finite 2"
    by (simp add: round_binary64_def ilog2_def pow2_def round_half_even_def Let_def)
  show "subelement_bool_kwarg (Element ''Placemark'' None [Element ''visibility'' (Some ''TRUE'') []])
        '''' None ''visibility'' ''visibility'' False = Inr [(''visibility'', VBool True)]"
    by (simp add: subelement_bool_kwarg_def node_eval number_eval)
  show "subelement_bool_kwarg (Element ''Placemark'' None [Element ''visibility'' (Some ''0'') []])
        '''' None ''visibility'' ''visibility'' False = Inr [(''visibility'', VBool False)]"
    by (simp add: subelement_bool_kwarg_def node_eval number_eval)
  show "subelement_bool_kwarg (Element ''Placemark'' None [Element ''visibility'' (Some ''2.0'') []])
        '''' None ''visibility'' ''visibility'' False = Inr [(''visibility'', VBool True)]"
    by (simp add: subelement_bool_kwarg_def node_eval number_eval r)
  show "subelement_bool_kwarg (Element ''Placemark'' None [Element ''visibility'' (Some ''maybe'') []])
        '''' None ''visibility'' ''visibility'' False = Inr []"
    by (simp add: subelement_bool_kwarg_def node_eval number_eval)
  show "subelement_bool_kwarg (Element ''Placemark'' None [Element ''visibility'' (Some ''maybe'') []])
        '''' None ''visibility'' ''visibility'' True = Inl ValueError"
    by (simp add: subelement_bool_kwarg_def node_eval number_eval)
qed

subsection \<open>Absence\<close>

text \<open>
  Claim C8 does not hold for every decoder. The nested-object decoder looks for a child
  by the tag of the class and decodes it whatever its text: for a child \<^verbatim>\<open>Point\<close> whose
  text is white space it returns an entry. The nested-object-list decoder returns an
  entry that holds the empty list when no child has the tag of a candidate class.
\<close>

theorem decoders_that_return_an_entry_without_a_value:
  "xml_subelement_kwarg
      (Element ''Placemark'' None [Element ''Point'' (Some ''  '') []])
      '''' None None ''geometry'' (named_class ''Point'' ''Point'') False
     = Inr [(''geometry'', VObj (PyObj ''Point'' '''' [(''name'', VStr ''  '')]))]
   \<and> xml_subelement_list_kwarg (Element ''Folder'' None [])
      '''' None ''features'' [named_class ''Placemark'' ''Placemark''] False
     = Inr [(''features'', VList [])]"
  by (simp add: xml_subelement_kwarg_def xml_subelement_list_kwarg_def find_child_def findall_def
      named_class_def)

text \<open>
  Claim C8 as amended. Every encoder returns the destination element unchanged when the
  attribute is \<^verbatim>\<open>None\<close> (or is not set); the text, enum, nested-object and
  nested-object-list encoders also when it holds any other false value, such as the
  empty text or the empty list. The text, boolean, integer, float and enum decoders
  return the empty result, in strict and in lenient mode, when the named child is absent
  and when it is present without text or with empty or white-space text. The
  nested-object decoder returns the empty result when no child has the tag of the class.
\<close>

theorem absence_is_preserved:
  assumes "getattr_default obj a = VNone"
    and "\<not> truthy (getattr_default obj2 a2)"
    and "find_child element (ns @ node) = None"
    and "find_child element2 (ns2 @ node2) = Some n" and "\<not> has_text n"
    and "find_child element3 (ns3 @ get_tag_name oc) = None"
  shows "text_subelement obj e a nn p v = Inr e
       \<and> bool_subelement obj e a nn p v = Inr e
       \<and> int_subelement py_str obj e a nn p v = Inr e
       \<and> float_subelement py_str obj e a nn p v = Inr e
       \<and> enum_subelement obj e a nn p v = Inr e
       \<and> xml_subelement ee obj e a nn p v = Inr e
       \<and> xml_subelement_list ee obj e a nn p v = Inr e
       \<and> text_subelement obj2 e a2 nn p v = Inr e
       \<and> enum_subelement obj2 e a2 nn p v = Inr e
       \<and> xml_subelement ee obj2 e a2 nn p v = Inr e
       \<and> xml_subelement_list ee obj2 e a2 nn p v = Inr e
       \<and> subelement_text_kwarg element ns nsp node kwarg strict = Inr []
       \<and> subelement_bool_kwarg element ns nsp node kwarg strict = Inr []
       \<and> subelement_int_kwarg element ns nsp node kwarg strict = Inr []
       \<and> subelement_float_kwarg element ns nsp node kwarg strict = Inr []
       \<and> subelement_enum_kwarg element ns nsp node kwarg ec strict = Inr []
       \<and> subelement_text_kwarg element2 ns2 nsp node2 kwarg strict = Inr []
       \<and> subelement_bool_kwarg element2 ns2 nsp node2 kwarg strict = Inr []
       \<and> subelement_int_kwarg element2 ns2 nsp node2 kwarg strict = Inr []
       \<and> subelement_float_kwarg element2 ns2 nsp node2 kwarg strict = Inr []
       \<and> subelement_enum_kwarg element2 ns2 nsp node2 kwarg ec strict = Inr []
       \<and> xml_subelement_kwarg element3 ns3 nsp nn kwarg oc strict = Inr []"
proof -
  have enc1: "text_subelement obj e a nn p v = Inr e" "bool_subelement obj e a nn p v = Inr e"
    "int_subelement py_str obj e a nn p v = Inr e" "float_subelement py_str obj e a nn p v = Inr e"
    "enum_subelement obj e a nn p v = Inr e" "xml_subelement ee obj e a nn p v = Inr e"
    "xml_subelement_list ee obj e a nn p v = Inr e"
    using assms(1)
    by (simp_all add: text_subelement_def bool_subelement_def int_subelement_def
        float_subelement_def enum_subelement_def xml_subelement_def xml_subelement_list_def)
  have enc2: "text_subelement obj2 e a2 nn p v = Inr e" "enum_subelement obj2 e a2 nn p v = Inr e"
    "xml_subelement ee obj2 e a2 nn p v = Inr e" "xml_subelement_list ee obj2 e a2 nn p v = Inr e"
    using assms(2)
    by (simp_all add: text_subelement_def enum_subelement_def xml_subelement_def
        xml_subelement_list_def)
  have dec1: "subelement_text_kwarg element ns nsp node kwarg strict = Inr []"
    "subelement_bool_kwarg element ns nsp node kwarg strict = Inr []"
    "subelement_int_kwarg element ns nsp node kwarg strict = Inr []"
    "subelement_float_kwarg element ns nsp node kwarg strict = Inr []"
    "subelement_enum_kwarg element ns nsp node kwarg ec strict = Inr []"
    using assms(3)
    by (simp_all add: subelement_text_kwarg_def subelement_bool_kwarg_def subelement_int_kwarg_def
        subelement_float_kwarg_def subelement_enum_kwarg_def)
  have dec2: "subelement_text_kwarg element2 ns2 nsp node2 kwarg strict = Inr []"
    "subelement_bool_kwarg element2 ns2 nsp node2 kwarg strict = Inr []"
    "subelement_int_kwarg element2 ns2 nsp node2 kwarg strict = Inr []"
    "subelement_float_kwarg element2 ns2 nsp node2 kwarg strict = Inr []"
    "subelement_enum_kwarg element2 ns2 nsp node2 kwarg ec strict = Inr []"
    using assms(4,5)
    by (simp_all add: subelement_text_kwarg_def subelement_bool_kwarg_def subelement_int_kwarg_def
        subelement_float_kwarg_def subelement_enum_kwarg_def)
  have dec3: "xml_subelement_kwarg element3 ns3 nsp nn kwarg oc strict = Inr []"
    using assms(6) by (simp add: xml_subelement_kwarg_def)
  show ?thesis using enc1 enc2 dec1 dec2 dec3 by simp
qed

text \<open>
  A Link without \<^verbatim>\<open>href\<close> and one with the empty \<^verbatim>\<open>href\<close>; a node without children, a node
  whose child \<^verbatim>\<open>href\<close> holds two spaces, and a Placemark without a Point.
\<close>

theorem absence_is_preserved_witness:
  "text_subelement (PyObj ''Link'' '''' []) (Element ''Link'' None []) ''href'' (Some ''href'') None None
     = Inr (Element ''Link'' None [])
   \<and> bool_subelement (PyObj ''Link'' '''' []) (Element ''Link'' None []) ''href'' (Some ''href'') None None
     = Inr (Element ''Link'' None [])
   \<and> xml_subelement_list (\<lambda>ob precision verb. Inr (Element ''Point'' None [])) (PyObj ''Link'' '''' []) (Element ''Link'' None []) ''href'' (Some ''href'') None None
     = Inr (Element ''Link'' None [])
   \<and> text_subelement (PyObj ''Link'' '''' [(''href'', VStr [])]) (Element ''Link'' None [])
       ''href'' (Some ''href'') None None
     = Inr (Element ''Link'' None [])
   \<and> xml_subelement_list (\<lambda>ob precision verb. Inr (Element ''Point'' None [])) (PyObj ''Link'' '''' [(''href'', VStr [])]) (Element ''Link'' None [])
       ''href'' (Some ''href'') None None
     = Inr (Element ''Link'' None [])
   \<and> subelement_text_kwarg (Element ''Link'' None []) '''' None ''href'' ''href'' True = Inr []
   \<and> subelement_int_kwarg (Element ''Link'' None []) '''' None ''href'' ''href'' True = Inr []
   \<and> subelement_enum_kwarg (Element ''Link'' None []) '''' None ''href'' ''href''
        (EnumClass ''RefreshMode'' [(''on_change'', ''onChange'')]) True = Inr []
   \<and> subelement_text_kwarg (Element ''Link'' None [Element ''href'' (Some ''  '') []])
        '''' None ''href'' ''href'' True = Inr []
   \<and> subelement_bool_kwarg (Element ''Link'' None [Element ''href'' (Some ''  '') []])
        '''' None ''href'' ''href'' True = Inr []
   \<and> subelement_float_kwarg (Element ''Link'' None [Element ''href'' (Some ''  '') []])
        '''' None ''href'' ''href'' True = Inr []
   \<and> xml_subelement_kwarg (Element ''Placemark'' None []) '''' None None ''geometry''
        (named_class ''Point'' ''Point'') True = Inr []"
proof -
  have h1: "getattr_default (PyObj ''Link'' '''' []) ''href'' = VNone"
    by (simp add: getattr_default_def)
  have h2: "\<not> truthy (getattr_default (PyObj ''Link'' '''' [(''href'', VStr [])]) ''href'')"
    by (simp add: getattr_default_def)
  have h3: "find_child (Element ''Link'' None []) ('''' @ ''href'') = None"
    by (simp add: find_child_def)
  have h4: "find_child (Element ''Link'' None [Element ''href'' (Some ''  '') []]) ('''' @ ''href'')
             = Some (Element ''href'' (Some ''  '') [])"
    by (simp add: find_child_def)
  have h5: "\<not> has_text (Element ''href'' (Some ''  '') [])"
    by (simp add: node_eval)
  have h6: "find_child (Element ''Placemark'' None [])
              ('''' @ get_tag_name (named_class ''Point'' ''Point'')) = None"
    by (simp add: find_child_def)
  show ?thesis
    using absence_is_preserved[OF h1 h2 h3 h4 h5 h6, where e = "Element ''Link'' None []"
        and nn = "Some ''href''" and p = None and v = None and ee = "\<lambda>ob precision verb. Inr (Element ''Point'' None [])" and nsp = None
        and kwarg = "''href''" and strict = True
        and ec = "EnumClass ''RefreshMode'' [(''on_change'', ''onChange'')]"]
      absence_is_preserved[OF h1 h2 h3 h4 h5 h6, where nn = None and nsp = None
        and kwarg = "''geometry''" and strict = True]
    by simp
qed

subsection \<open>Nested object lists\<close>

lemma from_elements_all:
  assumes "\<forall>sub \<in> set subs. class_from_element oc ns nsp sub strict = Inr (build oc sub)"
  shows "from_elements oc ns nsp strict subs = Inr (map (\<lambda>sub. VObj (build oc sub)) subs)"
  using assms by (induction subs) simp_all

lemma list_kwarg_loop_all:
  assumes "\<forall>oc \<in> set ocs. \<forall>sub \<in> set (findall element (ns @ get_tag_name oc)).
             class_from_element oc ns nsp sub strict = Inr (build oc sub)"
  shows "list_kwarg_loop ocs element ns nsp strict args
           = Inr (args @ concat (map (\<lambda>oc. map (\<lambda>sub. VObj (build oc sub))
                                       (findall element (ns @ get_tag_name oc))) ocs))"
  using assms
proof (induction ocs arbitrary: args)
  case Nil
  then show ?case by simp
next
  case (Cons oc ocs)
  from Cons.prems have first: "\<forall>sub \<in> set (findall element (ns @ get_tag_name oc)).
      class_from_element oc ns nsp sub strict = Inr (build oc sub)" by simp
  from Cons.prems have rest: "\<forall>oc \<in> set ocs. \<forall>sub \<in> set (findall element (ns @ get_tag_name oc)).
             class_from_element oc ns nsp sub strict = Inr (build oc sub)" by simp
  show ?case
    by (simp add: Let_def from_elements_all[where build = build, OF first] Cons.IH[OF rest])
qed

text \<open>
  Claim C9. Let \<open>build oc sub\<close> be the instance that the class \<open>oc\<close> builds from the child
  \<open>sub\<close>, for every candidate class and every child with its tag. Then the list decoder
  returns one entry whose list is, for each candidate class in the order supplied, the
  instances built from the children with the tag of that class in document order: the
  results are grouped by candidate class.
\<close>

theorem list_decode_groups_by_candidate_type:
  assumes "\<forall>oc \<in> set obj_classes.
             \<forall>sub \<in> set (filter (\<lambda>ch. tag ch = ns @ get_tag_name oc) (children element)).
               class_from_element oc ns nsp sub strict = Inr (build oc sub)"
  shows "xml_subelement_list_kwarg element ns nsp kwarg obj_classes strict
           = Inr [(kwarg,
                   VList (concat (map (\<lambda>oc. map (\<lambda>sub. VObj (build oc sub))
                                          (filter (\<lambda>ch. tag ch = ns @ get_tag_name oc)
                                                  (children element)))
                                      obj_classes)))]"
  using list_kwarg_loop_all[where ocs = obj_classes and element = element and ns = ns
      and nsp = nsp and strict = strict and build = build and args = "[]"] assms
  by (simp add: xml_subelement_list_kwarg_def findall_def)

text \<open>
  The scenario of the claim: candidate classes \<^verbatim>\<open>[TypeA, TypeB]\<close> and a node with the
  children A, B, A, B, A in this order. The list holds the three \<^verbatim>\<open>TypeA\<close> instances in
  document order, then the two \<^verbatim>\<open>TypeB\<close> instances in document order.
\<close>

theorem list_decode_groups_by_candidate_type_witness:
  "xml_subelement_list_kwarg
     (Element ''Folder'' None
        [Element ''TypeA'' (Some ''a1'') [], Element ''TypeB'' (Some ''b1'') [],
         Element ''TypeA'' (Some ''a2'') [], Element ''TypeB'' (Some ''b2'') [],
         Element ''TypeA'' (Some ''a3'') []])
     '''' None ''features'' [named_class ''TypeA'' ''TypeA'', named_class ''TypeB'' ''TypeB''] True
   = Inr [(''features'',
           VList [VObj (PyObj ''TypeA'' '''' [(''name'', VStr ''a1'')]),
                  VObj (PyObj ''TypeA'' '''' [(''name'', VStr ''a2'')]),
                  VObj (PyObj ''TypeA'' '''' [(''name'', VStr ''a3'')]),
                  VObj (PyObj ''TypeB'' '''' [(''name'', VStr ''b1'')]),
                  VObj (PyObj ''TypeB'' '''' [(''name'', VStr ''b2'')])])]"
proof -
  let ?e = "Element ''Folder'' None
        [Element ''TypeA'' (Some ''a1'') [], Element ''TypeB'' (Some ''b1'') [],
         Element ''TypeA'' (Some ''a2'') [], Element ''TypeB'' (Some ''b2'') [],
         Element ''TypeA'' (Some ''a3'') []]"
  let ?cs = "[named_class ''TypeA'' ''TypeA'', named_class ''TypeB'' ''TypeB'']"
  let ?build = "\<lambda>oc sub. PyObj (class_name oc) ''''
                  [(''name'', VStr (case text_of sub of Some x \<Rightarrow> x | None \<Rightarrow> []))]"
  have h: "\<forall>oc \<in> set ?cs.
             \<forall>sub \<in> set (filter (\<lambda>ch. tag ch = '''' @ get_tag_name oc) (children ?e)).
               class_from_element oc '''' None sub True = Inr (?build oc sub)"
    by (simp add: named_class_def)
  show ?thesis
    using list_decode_groups_by_candidate_type[where build = ?build and kwarg = "''features''", OF h]
    by (simp add: named_class_def)
qed

end
